theory Spec2Isabelle
  imports Main
begin

section \<open>Group management of the account manager (management/server/group.go)\<close>

text \<open>
  A shallow embedding of the group operations of \<open>DefaultAccountManager\<close>:
  \<open>SaveGroups\<close>, \<open>DeleteGroups\<close>, \<open>GroupAddPeer\<close>, \<open>GroupDeletePeer\<close>, the deletion
  validation and the linkage and impact predicates. A Go result \<open>(T, error)\<close> is a value
  of \<open>error + T\<close>, a Go \<open>error\<close> is an \<open>error option\<close> (\<open>None\<close> is \<open>nil\<close>).
\<close>

subsection \<open>Errors\<close>

text \<open>The error kinds of the status package, as the specification lists them.\<close>

datatype status_type =
    NotFound | InvalidArgument | AlreadyExists | PermissionDenied
  | UserNotPartOfAccount | StoreFailure

text \<open>
  \<open>Status\<close> is an error built by \<open>status.Errorf\<close>, \<open>GroupLinkError\<close> is the struct of
  group.go with its fields \<open>Resource\<close> and \<open>Name\<close>, \<open>JoinError\<close> is the value
  \<open>errors.Join\<close> builds, and \<open>NilDereference\<close> stands for the panic of reading a
  field through a nil pointer.
\<close>

datatype error =
    Status status_type string
  | GroupLinkError string string
  | JoinError "error list"
  | NilDereference

text \<open>
  \<open>errors.Join\<close> of the standard library: nil arguments are dropped, the result is nil
  when nothing is left and wraps the remaining errors, in order, otherwise.
\<close>

definition errors_Join :: "error option list \<Rightarrow> error option" where
  "errors_Join errs =
     (case List.map_filter id errs of [] \<Rightarrow> None | e # es \<Rightarrow> Some (JoinError (e # es)))"

text \<open>The errors a (possibly nested) joined error wraps, left to right.\<close>

fun unwrap :: "error \<Rightarrow> error list" where
  "unwrap (JoinError es) = concat (map unwrap es)"
| "unwrap (Status t m) = [Status t m]"
| "unwrap (GroupLinkError r n) = [GroupLinkError r n]"
| "unwrap NilDereference = [NilDereference]"

fun unwrap_opt :: "error option \<Rightarrow> error list" where
  "unwrap_opt None = []"
| "unwrap_opt (Some e) = unwrap e"

fun isGroupLinkError :: "error \<Rightarrow> bool" where
  "isGroupLinkError (GroupLinkError r n) = True"
| "isGroupLinkError e = False"

text \<open>
  Modelled from the spec: \<open>status.NewUserNotPartOfAccountError\<close> lives in the status
  package, outside group.go; the requester's account does not match the target account,
  error kind \<open>UserNotPartOfAccount\<close>.
\<close>

definition NewUserNotPartOfAccountError :: error where
  "NewUserNotPartOfAccountError = Status UserNotPartOfAccount ''user is not part of this account''"

text \<open>
  Modelled from the spec: \<open>status.NewAdminPermissionError\<close> lives in the status package,
  outside group.go; the requester lacks the admin or service-user privilege, error kind
  \<open>PermissionDenied\<close>.
\<close>

definition NewAdminPermissionError :: error where
  "NewAdminPermissionError = Status PermissionDenied ''admin role required to perform this action''"

subsection \<open>Entities\<close>

datatype UserRole = UserRoleAdmin | UserRoleUser

record User =
  User_Id :: string
  User_AccountID :: string
  User_Role :: UserRole
  User_IsServiceUser :: bool
  User_AutoGroups :: "string list"

record Group =
  Group_ID :: string
  Group_AccountID :: string
  Group_Name :: string
  Group_Issued :: string
  Group_Peers :: "string list"

record Peer =
  Peer_ID :: string
  Peer_AccountID :: string
  Peer_IP :: string
  Peer_DNSLabel :: string

record PolicyRule =
  Rule_Enabled :: bool
  Rule_Sources :: "string list"
  Rule_Destinations :: "string list"

record Policy =
  Policy_ID :: string
  Policy_AccountID :: string
  Policy_Name :: string
  Policy_Enabled :: bool
  Policy_Rules :: "PolicyRule list"

record Route =
  Route_ID :: string
  Route_AccountID :: string
  Route_NetID :: string
  Route_Groups :: "string list"
  Route_PeerGroups :: "string list"

record NameServerGroup =
  NSGroup_ID :: string
  NSGroup_AccountID :: string
  NSGroup_Name :: string
  NSGroup_Groups :: "string list"

record SetupKey =
  SetupKey_Id :: string
  SetupKey_AccountID :: string
  SetupKey_Name :: string
  SetupKey_AutoGroups :: "string list"

record DNSSettings =
  DisabledManagementGroups :: "string list"

record ExtraSettings =
  IntegratedValidatorGroups :: "string list"

record Settings =
  Extra :: "ExtraSettings option"

record Account =
  Account_Id :: string
  Network_Serial :: nat
  Account_DNSSettings :: DNSSettings
  Account_Settings :: Settings

text \<open>
  Modelled from the spec: the constant \<open>GroupIssuedAPI\<close> of the group package, outside
  group.go; the issuer of a group is one of \<open>api\<close>, \<open>integration\<close>, \<open>jwt\<close>.
\<close>

definition GroupIssuedAPI :: string where
  "GroupIssuedAPI = ''api''"

text \<open>
  Modelled from the spec: the constant \<open>GroupIssuedIntegration\<close> of the group package,
  outside group.go.
\<close>

definition GroupIssuedIntegration :: string where
  "GroupIssuedIntegration = ''integration''"

text \<open>
  Modelled from the spec: \<open>Group.IsGroupAll\<close> of the group package, outside group.go; the
  distinguished group of an account is the one called ALL.
\<close>

definition IsGroupAll :: "Group \<Rightarrow> bool" where
  "IsGroupAll g = (Group_Name g = ''ALL'')"

text \<open>
  Modelled from the spec: \<open>User.IsRegularUser\<close>, outside group.go; a regular user is
  neither an admin nor a service user.
\<close>

definition IsRegularUser :: "User \<Rightarrow> bool" where
  "IsRegularUser u = (User_Role u \<noteq> UserRoleAdmin \<and> \<not> User_IsServiceUser u)"

text \<open>
  Modelled from the spec: \<open>Group.AddPeer\<close> of the group package, outside group.go; the
  members of a group are an ordered set of peer IDs without duplicates, and adding a peer
  that is already a member changes nothing and reports \<open>false\<close>.
\<close>

definition AddPeer :: "Group \<Rightarrow> string \<Rightarrow> bool \<times> Group" where
  "AddPeer g peerID =
     (if peerID \<in> set (Group_Peers g) then (False, g)
      else (True, g\<lparr>Group_Peers := Group_Peers g @ [peerID]\<rparr>))"

text \<open>
  Modelled from the spec: \<open>Group.RemovePeer\<close> of the group package, outside group.go;
  removing a peer that is not a member changes nothing and reports \<open>false\<close>.
\<close>

definition RemovePeer :: "Group \<Rightarrow> string \<Rightarrow> bool \<times> Group" where
  "RemovePeer g peerID =
     (if peerID \<in> set (Group_Peers g)
      then (True, g\<lparr>Group_Peers := remove1 peerID (Group_Peers g)\<rparr>)
      else (False, g))"

subsection \<open>The entity store\<close>

text \<open>
  Modelled from the spec: the store is an external collaborator, an interface whose
  implementations are outside group.go. It is modelled as
  flat tables whose rows carry the ID of the account that owns them, plus the list of the
  operations that currently fail with a persistence error. A read by ID fails with
  \<open>NotFound\<close> when no row matches; \<open>IncrementNetworkSerial\<close> adds one to the serial of the
  account; \<open>SaveGroup\<close> replaces the row with the same ID or appends a new one;
  \<open>DeleteGroups\<close> removes the rows of the account whose ID is listed;
  \<open>ExecuteInTransaction\<close> keeps the writes of its body only when the body returns no
  error and the commit succeeds.
\<close>

datatype store_op =
    OpGetUserByUserID | OpGetGroupByID | OpGetGroupByName | OpGetPeerByID | OpGetPeersByIDs
  | OpGetAccountRoutes | OpGetAccountPolicies | OpGetAccountNameServerGroups
  | OpGetAccountSetupKeys | OpGetAccountUsers | OpGetAccountDNSSettings
  | OpGetAccountSettings | OpIncrementNetworkSerial | OpSaveGroups | OpSaveGroup
  | OpDeleteGroups | OpBeginTransaction | OpCommit

record Store =
  accounts :: "Account list"
  users :: "User list"
  groups :: "Group list"
  peers :: "Peer list"
  policies :: "Policy list"
  routes :: "Route list"
  nameServerGroups :: "NameServerGroup list"
  setupKeys :: "SetupKey list"
  failing :: "store_op list"

text \<open>Modelled from the spec: an operation of the store fails while it is in the list of failing operations.\<close>

definition fails :: "Store \<Rightarrow> store_op \<Rightarrow> bool" where
  "fails s op = (op \<in> set (failing s))"

text \<open>Modelled from the spec: the error kind \<open>StoreFailure\<close> of a failed store operation.\<close>

definition storeError :: error where
  "storeError = Status StoreFailure ''store failure''"

text \<open>Modelled from the spec: the error kind \<open>NotFound\<close> of a read by ID or name that matches no row.\<close>

definition notFound :: "string \<Rightarrow> error" where
  "notFound what = Status NotFound (what @ '' not found'')"

text \<open>Modelled from the spec: the store read of a user by ID, over all accounts.\<close>

definition GetUserByUserID :: "Store \<Rightarrow> string \<Rightarrow> error + User" where
  "GetUserByUserID s userID =
     (if fails s OpGetUserByUserID then Inl storeError
      else case find (\<lambda>u. User_Id u = userID) (users s) of
             None \<Rightarrow> Inl (notFound ''user'')
           | Some u \<Rightarrow> Inr u)"

text \<open>Modelled from the spec: the store read of a group of an account by ID.\<close>

definition GetGroupByID :: "Store \<Rightarrow> string \<Rightarrow> string \<Rightarrow> error + Group" where
  "GetGroupByID s accountID groupID =
     (if fails s OpGetGroupByID then Inl storeError
      else case find (\<lambda>g. Group_ID g = groupID \<and> Group_AccountID g = accountID) (groups s) of
             None \<Rightarrow> Inl (notFound ''group'')
           | Some g \<Rightarrow> Inr g)"

text \<open>Modelled from the spec: the store read of a group of an account by name.\<close>

definition GetGroupByName :: "Store \<Rightarrow> string \<Rightarrow> string \<Rightarrow> error + Group" where
  "GetGroupByName s accountID name =
     (if fails s OpGetGroupByName then Inl storeError
      else case find (\<lambda>g. Group_Name g = name \<and> Group_AccountID g = accountID) (groups s) of
             None \<Rightarrow> Inl (notFound ''group'')
           | Some g \<Rightarrow> Inr g)"

text \<open>Modelled from the spec: the store read of a peer of an account by ID.\<close>

definition GetPeerByID :: "Store \<Rightarrow> string \<Rightarrow> string \<Rightarrow> error + Peer" where
  "GetPeerByID s accountID peerID =
     (if fails s OpGetPeerByID then Inl storeError
      else case find (\<lambda>p. Peer_ID p = peerID \<and> Peer_AccountID p = accountID) (peers s) of
             None \<Rightarrow> Inl (notFound ''peer'')
           | Some p \<Rightarrow> Inr p)"

text \<open>Modelled from the spec: the store read of the peers of an account among the given IDs, keyed by ID.\<close>

definition GetPeersByIDs :: "Store \<Rightarrow> string \<Rightarrow> string list \<Rightarrow> error + (string \<times> Peer) list" where
  "GetPeersByIDs s accountID peerIDs =
     (if fails s OpGetPeersByIDs then Inl storeError
      else Inr (map (\<lambda>p. (Peer_ID p, p))
                  (filter (\<lambda>p. Peer_AccountID p = accountID \<and> Peer_ID p \<in> set peerIDs) (peers s))))"

text \<open>Modelled from the spec: the store read of the routes of an account.\<close>

definition GetAccountRoutes :: "Store \<Rightarrow> string \<Rightarrow> error + Route list" where
  "GetAccountRoutes s accountID =
     (if fails s OpGetAccountRoutes then Inl storeError
      else Inr (filter (\<lambda>r. Route_AccountID r = accountID) (routes s)))"

text \<open>Modelled from the spec: the store read of the policies of an account.\<close>

definition GetAccountPolicies :: "Store \<Rightarrow> string \<Rightarrow> error + Policy list" where
  "GetAccountPolicies s accountID =
     (if fails s OpGetAccountPolicies then Inl storeError
      else Inr (filter (\<lambda>p. Policy_AccountID p = accountID) (policies s)))"

text \<open>Modelled from the spec: the store read of the name server groups of an account.\<close>

definition GetAccountNameServerGroups :: "Store \<Rightarrow> string \<Rightarrow> error + NameServerGroup list" where
  "GetAccountNameServerGroups s accountID =
     (if fails s OpGetAccountNameServerGroups then Inl storeError
      else Inr (filter (\<lambda>n. NSGroup_AccountID n = accountID) (nameServerGroups s)))"

text \<open>Modelled from the spec: the store read of the setup keys of an account.\<close>

definition GetAccountSetupKeys :: "Store \<Rightarrow> string \<Rightarrow> error + SetupKey list" where
  "GetAccountSetupKeys s accountID =
     (if fails s OpGetAccountSetupKeys then Inl storeError
      else Inr (filter (\<lambda>k. SetupKey_AccountID k = accountID) (setupKeys s)))"

text \<open>Modelled from the spec: the store read of the users of an account.\<close>

definition GetAccountUsers :: "Store \<Rightarrow> string \<Rightarrow> error + User list" where
  "GetAccountUsers s accountID =
     (if fails s OpGetAccountUsers then Inl storeError
      else Inr (filter (\<lambda>u. User_AccountID u = accountID) (users s)))"

text \<open>Modelled from the spec: the store read of the DNS settings of an account.\<close>

definition GetAccountDNSSettings :: "Store \<Rightarrow> string \<Rightarrow> error + DNSSettings" where
  "GetAccountDNSSettings s accountID =
     (if fails s OpGetAccountDNSSettings then Inl storeError
      else case find (\<lambda>a. Account_Id a = accountID) (accounts s) of
             None \<Rightarrow> Inl (notFound ''account'')
           | Some a \<Rightarrow> Inr (Account_DNSSettings a))"

text \<open>Modelled from the spec: the store read of the settings of an account.\<close>

definition GetAccountSettings :: "Store \<Rightarrow> string \<Rightarrow> error + Settings" where
  "GetAccountSettings s accountID =
     (if fails s OpGetAccountSettings then Inl storeError
      else case find (\<lambda>a. Account_Id a = accountID) (accounts s) of
             None \<Rightarrow> Inl (notFound ''account'')
           | Some a \<Rightarrow> Inr (Account_Settings a))"

text \<open>Modelled from the spec: the store write that adds one to the network serial of an account.\<close>

definition IncrementNetworkSerial :: "Store \<Rightarrow> string \<Rightarrow> error + Store" where
  "IncrementNetworkSerial s accountID =
     (if fails s OpIncrementNetworkSerial then Inl storeError
      else Inr (s\<lparr>accounts :=
                  map (\<lambda>a. if Account_Id a = accountID
                           then a\<lparr>Network_Serial := Network_Serial a + 1\<rparr> else a)
                      (accounts s)\<rparr>))"

text \<open>Modelled from the spec: saving a group replaces the row with the same ID or appends a new row.\<close>

definition upsertGroup :: "Group \<Rightarrow> Group list \<Rightarrow> Group list" where
  "upsertGroup g gs =
     (if list_ex (\<lambda>h. Group_ID h = Group_ID g) gs
      then map (\<lambda>h. if Group_ID h = Group_ID g then g else h) gs
      else gs @ [g])"

text \<open>Modelled from the spec: the store write \<open>SaveGroup\<close>.\<close>

definition Store_SaveGroup :: "Store \<Rightarrow> Group \<Rightarrow> error + Store" where
  "Store_SaveGroup s g =
     (if fails s OpSaveGroup then Inl storeError
      else Inr (s\<lparr>groups := upsertGroup g (groups s)\<rparr>))"

text \<open>Modelled from the spec: the store write \<open>SaveGroups\<close>, one group after the other.\<close>

definition Store_SaveGroups :: "Store \<Rightarrow> Group list \<Rightarrow> error + Store" where
  "Store_SaveGroups s gs =
     (if fails s OpSaveGroups then Inl storeError
      else Inr (s\<lparr>groups := foldl (\<lambda>tbl g. upsertGroup g tbl) (groups s) gs\<rparr>))"

text \<open>Modelled from the spec: the store write \<open>DeleteGroups\<close>; it removes the rows of the account whose ID is listed.\<close>

definition Store_DeleteGroups :: "Store \<Rightarrow> string \<Rightarrow> string list \<Rightarrow> error + Store" where
  "Store_DeleteGroups s accountID groupIDs =
     (if fails s OpDeleteGroups then Inl storeError
      else Inr (s\<lparr>groups :=
                  filter (\<lambda>g. \<not> (Group_AccountID g = accountID \<and> Group_ID g \<in> set groupIDs))
                         (groups s)\<rparr>))"

text \<open>
  Modelled from the spec: \<open>ExecuteInTransaction\<close> of the store. The body of a transaction
  returns an error, or the values it leaves in the variables of the enclosing function
  together with the store it has written; the writes are kept only when the body returns
  no error and the commit succeeds.
\<close>

definition ExecuteInTransaction :: "Store \<Rightarrow> (Store \<Rightarrow> error + ('a \<times> Store)) \<Rightarrow> error + ('a \<times> Store)" where
  "ExecuteInTransaction s fn =
     (if fails s OpBeginTransaction then Inl storeError
      else case fn s of
             Inl e \<Rightarrow> Inl e
           | Inr (out, s') \<Rightarrow> if fails s OpCommit then Inl storeError else Inr (out, s'))"

text \<open>Modelled from the spec: the network serial the store holds for an account, if the account exists.\<close>

definition accountSerial :: "Store \<Rightarrow> string \<Rightarrow> nat option" where
  "accountSerial s accountID =
     map_option Network_Serial (find (\<lambda>a. Account_Id a = accountID) (accounts s))"

subsection \<open>Linkage of a group (isGroupLinkedTo...)\<close>

text \<open>
  Each helper returns the pair of the source: \<open>(True, Some x)\<close> with the first linked
  resource, \<open>(False, None)\<close> when the read fails (the error is only logged) or nothing is
  linked.
\<close>

definition isGroupLinkedToRoute :: "Store \<Rightarrow> string \<Rightarrow> string \<Rightarrow> bool \<times> Route option" where
  "isGroupLinkedToRoute s accountID groupID =
     (case GetAccountRoutes s accountID of
        Inl err \<Rightarrow> (False, None)
      | Inr rs \<Rightarrow>
          (case find (\<lambda>r. groupID \<in> set (Route_Groups r) \<or> groupID \<in> set (Route_PeerGroups r)) rs of
             Some r \<Rightarrow> (True, Some r)
           | None \<Rightarrow> (False, None)))"

definition isGroupLinkedToPolicy :: "Store \<Rightarrow> string \<Rightarrow> string \<Rightarrow> bool \<times> Policy option" where
  "isGroupLinkedToPolicy s accountID groupID =
     (case GetAccountPolicies s accountID of
        Inl err \<Rightarrow> (False, None)
      | Inr ps \<Rightarrow>
          (case find (\<lambda>p. list_ex (\<lambda>rule. groupID \<in> set (Rule_Sources rule)
                                      \<or> groupID \<in> set (Rule_Destinations rule)) (Policy_Rules p)) ps of
             Some p \<Rightarrow> (True, Some p)
           | None \<Rightarrow> (False, None)))"

definition isGroupLinkedToDns :: "Store \<Rightarrow> string \<Rightarrow> string \<Rightarrow> bool \<times> NameServerGroup option" where
  "isGroupLinkedToDns s accountID groupID =
     (case GetAccountNameServerGroups s accountID of
        Inl err \<Rightarrow> (False, None)
      | Inr ns \<Rightarrow>
          (case find (\<lambda>dns. list_ex (\<lambda>g. g = groupID) (NSGroup_Groups dns)) ns of
             Some dns \<Rightarrow> (True, Some dns)
           | None \<Rightarrow> (False, None)))"

definition isGroupLinkedToSetupKey :: "Store \<Rightarrow> string \<Rightarrow> string \<Rightarrow> bool \<times> SetupKey option" where
  "isGroupLinkedToSetupKey s accountID groupID =
     (case GetAccountSetupKeys s accountID of
        Inl err \<Rightarrow> (False, None)
      | Inr ks \<Rightarrow>
          (case find (\<lambda>k. groupID \<in> set (SetupKey_AutoGroups k)) ks of
             Some k \<Rightarrow> (True, Some k)
           | None \<Rightarrow> (False, None)))"

definition isGroupLinkedToUser :: "Store \<Rightarrow> string \<Rightarrow> string \<Rightarrow> bool \<times> User option" where
  "isGroupLinkedToUser s accountID groupID =
     (case GetAccountUsers s accountID of
        Inl err \<Rightarrow> (False, None)
      | Inr us \<Rightarrow>
          (case find (\<lambda>u. groupID \<in> set (User_AutoGroups u)) us of
             Some u \<Rightarrow> (True, Some u)
           | None \<Rightarrow> (False, None)))"

subsection \<open>Validation of a deletion\<close>

definition checkGroupLinkedToSettings :: "Store \<Rightarrow> Group \<Rightarrow> error option" where
  "checkGroupLinkedToSettings s g =
     (case GetAccountDNSSettings s (Group_AccountID g) of
        Inl err \<Rightarrow> Some err
      | Inr dnsSettings \<Rightarrow>
          if Group_ID g \<in> set (DisabledManagementGroups dnsSettings)
          then Some (GroupLinkError ''disabled DNS management groups'' (Group_Name g))
          else (case GetAccountSettings s (Group_AccountID g) of
                  Inl err \<Rightarrow> Some err
                | Inr settings \<Rightarrow>
                    (case Extra settings of
                       None \<Rightarrow> None
                     | Some extra \<Rightarrow>
                         if Group_ID g \<in> set (IntegratedValidatorGroups extra)
                         then Some (GroupLinkError ''integrated validator'' (Group_Name g))
                         else None)))"

text \<open>
  The name of the linked resource is read through the pointer the helper returns; the
  helpers never return \<open>True\<close> with a nil pointer, the branch is kept for totality.
\<close>

definition linkError :: "string \<Rightarrow> ('a \<Rightarrow> string) \<Rightarrow> 'a option \<Rightarrow> error" where
  "linkError resource name linked =
     (case linked of None \<Rightarrow> NilDereference | Some x \<Rightarrow> GroupLinkError resource (name x))"

text \<open>The first block of \<open>validateDeleteGroup\<close>: only a service user with the admin role
  may delete a group issued by an integration.\<close>

definition integrationGroupGuard :: "Store \<Rightarrow> Group \<Rightarrow> string \<Rightarrow> error option" where
  "integrationGroupGuard s g userID =
     (if Group_Issued g = GroupIssuedIntegration
      then (case GetUserByUserID s userID of
              Inl err \<Rightarrow> Some err
            | Inr executingUser \<Rightarrow>
                if User_Role executingUser \<noteq> UserRoleAdmin \<or> \<not> User_IsServiceUser executingUser
                then Some (Status PermissionDenied
                             ''only service users with admin power can delete integration group'')
                else None)
      else None)"

definition validateDeleteGroup :: "Store \<Rightarrow> Group \<Rightarrow> string \<Rightarrow> error option" where
  "validateDeleteGroup s g userID =
     (case integrationGroupGuard s g userID of
        Some err \<Rightarrow> Some err
      | None \<Rightarrow>
          if IsGroupAll g
          then Some (Status InvalidArgument ''deleting group ALL is not allowed'')
          else if fst (isGroupLinkedToRoute s (Group_AccountID g) (Group_ID g))
          then Some (linkError ''route'' Route_NetID
                       (snd (isGroupLinkedToRoute s (Group_AccountID g) (Group_ID g))))
          else if fst (isGroupLinkedToDns s (Group_AccountID g) (Group_ID g))
          then Some (linkError ''name server groups'' NSGroup_Name
                       (snd (isGroupLinkedToDns s (Group_AccountID g) (Group_ID g))))
          else if fst (isGroupLinkedToPolicy s (Group_AccountID g) (Group_ID g))
          then Some (linkError ''policy'' Policy_Name
                       (snd (isGroupLinkedToPolicy s (Group_AccountID g) (Group_ID g))))
          else if fst (isGroupLinkedToSetupKey s (Group_AccountID g) (Group_ID g))
          then Some (linkError ''setup key'' SetupKey_Name
                       (snd (isGroupLinkedToSetupKey s (Group_AccountID g) (Group_ID g))))
          else if fst (isGroupLinkedToUser s (Group_AccountID g) (Group_ID g))
          then Some (linkError ''user'' User_Id
                       (snd (isGroupLinkedToUser s (Group_AccountID g) (Group_ID g))))
          else checkGroupLinkedToSettings s g)"

subsection \<open>The impact predicate\<close>

fun groupsAffectPeers :: "Store \<Rightarrow> string \<Rightarrow> DNSSettings \<Rightarrow> string list \<Rightarrow> bool" where
  "groupsAffectPeers s accountID dnsSettings [] = False"
| "groupsAffectPeers s accountID dnsSettings (groupID # rest) =
     (if groupID \<in> set (DisabledManagementGroups dnsSettings) then True
      else if fst (isGroupLinkedToDns s accountID groupID) then True
      else if fst (isGroupLinkedToPolicy s accountID groupID) then True
      else if fst (isGroupLinkedToRoute s accountID groupID) then True
      else groupsAffectPeers s accountID dnsSettings rest)"

definition areGroupChangesAffectPeers :: "Store \<Rightarrow> string \<Rightarrow> string list \<Rightarrow> bool \<times> error option" where
  "areGroupChangesAffectPeers s accountID groupIDs =
     (if length groupIDs = 0 then (False, None)
      else case GetAccountDNSSettings s accountID of
             Inl err \<Rightarrow> (False, Some err)
           | Inr dnsSettings \<Rightarrow> (groupsAffectPeers s accountID dnsSettings groupIDs, None))"

subsection \<open>The account manager: audit events and propagation\<close>

datatype Activity = GroupCreated | GroupDeleted | GroupAddedToPeer | GroupRemovedFromPeer

text \<open>
  The metadata of an event: the name of a group (\<open>Group.EventMeta\<close>), or the map that
  \<open>prepareGroupEvents\<close> builds from the group's name and ID and the peer's IP and FQDN.
\<close>

datatype EventMeta =
    GroupMeta string
  | PeerGroupMeta string string string string

record Event =
  Event_InitiatorID :: string
  Event_TargetID :: string
  Event_AccountID :: string
  Event_Activity :: Activity
  Event_Meta :: EventMeta

text \<open>
  The state an operation of the manager can change: the store, the audit log that
  \<open>StoreEvent\<close> appends to, and the accounts for which \<open>updateAccountPeers\<close> has been
  called, in order.
\<close>

record DefaultAccountManager =
  am_Store :: Store
  storedEvents :: "Event list"
  peerUpdates :: "string list"
  dnsDomain :: string

definition StoreEvent :: "DefaultAccountManager \<Rightarrow> Event \<Rightarrow> DefaultAccountManager" where
  "StoreEvent am e = am\<lparr>storedEvents := storedEvents am @ [e]\<rparr>"

definition updateAccountPeers :: "DefaultAccountManager \<Rightarrow> string \<Rightarrow> DefaultAccountManager" where
  "updateAccountPeers am accountID = am\<lparr>peerUpdates := peerUpdates am @ [accountID]\<rparr>"

text \<open>
  Modelled from the spec: \<open>Peer.FQDN\<close>, outside group.go; an event carries the FQDN of
  the peer, its DNS label under the domain of the manager.
\<close>

definition FQDN :: "Peer \<Rightarrow> string \<Rightarrow> string" where
  "FQDN p domain = (if domain = [] then [] else Peer_DNSLabel p @ ''.'' @ domain)"

text \<open>
  Modelled from the spec: \<open>Group.EventMeta\<close> of the group package, outside group.go; the
  metadata of a group event holds the name of the group.
\<close>

definition EventMeta_of :: "Group \<Rightarrow> EventMeta" where
  "EventMeta_of g = GroupMeta (Group_Name g)"

subsection \<open>SaveGroups\<close>

definition difference :: "string list \<Rightarrow> string list \<Rightarrow> string list" where
  "difference a b = filter (\<lambda>x. x \<notin> set b) a"

definition peerEvents ::
  "string \<Rightarrow> string \<Rightarrow> string \<Rightarrow> Group \<Rightarrow> Activity \<Rightarrow> (string \<times> Peer) list \<Rightarrow> string list \<Rightarrow> Event list" where
  "peerEvents domain accountID userID newGroup act peersByID peerIDs =
     List.map_filter
       (\<lambda>peerID. case map_of peersByID peerID of
                    None \<Rightarrow> None
                  | Some peer \<Rightarrow>
                      Some \<lparr>Event_InitiatorID = userID, Event_TargetID = Peer_ID peer,
                            Event_AccountID = accountID, Event_Activity = act,
                            Event_Meta = PeerGroupMeta (Group_Name newGroup) (Group_ID newGroup)
                                           (Peer_IP peer) (FQDN peer domain)\<rparr>)
       peerIDs"

definition prepareGroupEvents :: "Store \<Rightarrow> string \<Rightarrow> string \<Rightarrow> string \<Rightarrow> Group \<Rightarrow> Event list" where
  "prepareGroupEvents s domain accountID userID newGroup =
     (let (addedPeers, removedPeers, created) =
            (case GetGroupByID s accountID (Group_ID newGroup) of
               Inr oldGroup \<Rightarrow>
                 (difference (Group_Peers newGroup) (Group_Peers oldGroup),
                  difference (Group_Peers oldGroup) (Group_Peers newGroup), [])
             | Inl err \<Rightarrow>
                 (Group_Peers newGroup, [],
                  [\<lparr>Event_InitiatorID = userID, Event_TargetID = Group_ID newGroup,
                    Event_AccountID = accountID, Event_Activity = GroupCreated,
                    Event_Meta = EventMeta_of newGroup\<rparr>]))
      in case GetPeersByIDs s accountID (addedPeers @ removedPeers) of
           Inl err \<Rightarrow> []
         | Inr peersByID \<Rightarrow>
             created
             @ peerEvents domain accountID userID newGroup GroupAddedToPeer peersByID addedPeers
             @ peerEvents domain accountID userID newGroup GroupRemovedFromPeer peersByID removedPeers)"

text \<open>
  \<open>xid\<close> stands for \<open>xid.New().String()\<close>: the \<open>n\<close>-th identifier generated during the
  call is \<open>xid n\<close>. The function returns the group with the identifier it may have been
  given, and the number of identifiers generated so far.
\<close>

definition quoted :: "string \<Rightarrow> string" where
  "quoted x = [CHR 0x22] @ x @ [CHR 0x22]"

definition validateNewGroup ::
  "Store \<Rightarrow> (nat \<Rightarrow> string) \<Rightarrow> nat \<Rightarrow> string \<Rightarrow> Group \<Rightarrow> error + (Group \<times> nat)" where
  "validateNewGroup s xid n accountID newGroup =
     (if Group_ID newGroup = [] \<and> Group_Issued newGroup \<noteq> GroupIssuedAPI
      then Inl (Status InvalidArgument (Group_Issued newGroup @ '' group without ID set''))
      else
        (case (if Group_ID newGroup = [] \<and> Group_Issued newGroup = GroupIssuedAPI
               then (case GetGroupByName s accountID (Group_Name newGroup) of
                       Inr existingGroup \<Rightarrow>
                         Inl (Status AlreadyExists
                                (''group with name '' @ Group_Name newGroup @ '' already exists''))
                     | Inl err \<Rightarrow>
                         (case err of
                            Status NotFound m \<Rightarrow> Inr (newGroup\<lparr>Group_ID := xid n\<rparr>, Suc n)
                          | _ \<Rightarrow> Inl err))
               else Inr (newGroup, n)) of
           Inl err \<Rightarrow> Inl err
         | Inr (g, n') \<Rightarrow>
             (case find (\<lambda>peerID. isl (GetPeerByID s accountID peerID)) (Group_Peers g) of
                Some peerID \<Rightarrow>
                  Inl (Status InvalidArgument (''peer with ID '' @ quoted peerID @ '' not found''))
              | None \<Rightarrow> Inr (g, n'))))"

text \<open>
  The loop over the groups inside the transaction of \<open>SaveGroups\<close>; its state is the
  number of generated identifiers, \<open>groupsToSave\<close>, \<open>groupIDs\<close> and \<open>eventsToStore\<close>.
\<close>

fun saveLoop ::
  "Store \<Rightarrow> (nat \<Rightarrow> string) \<Rightarrow> string \<Rightarrow> string \<Rightarrow> string \<Rightarrow> Group list
     \<Rightarrow> nat \<times> Group list \<times> string list \<times> Event list
     \<Rightarrow> error + (nat \<times> Group list \<times> string list \<times> Event list)" where
  "saveLoop s xid domain accountID userID [] st = Inr st"
| "saveLoop s xid domain accountID userID (newGroup # rest) (n, groupsToSave, groupIDs, eventsToStore) =
     (case validateNewGroup s xid n accountID newGroup of
        Inl err \<Rightarrow> Inl err
      | Inr (g, n') \<Rightarrow>
          (let g' = g\<lparr>Group_AccountID := accountID\<rparr>
           in saveLoop s xid domain accountID userID rest
                (n', groupsToSave @ [g'], groupIDs @ [Group_ID g'],
                 eventsToStore @ prepareGroupEvents s domain accountID userID g')))"

definition SaveGroups_tx ::
  "(nat \<Rightarrow> string) \<Rightarrow> string \<Rightarrow> string \<Rightarrow> string \<Rightarrow> Group list \<Rightarrow> Store
     \<Rightarrow> error + ((Event list \<times> bool) \<times> Store)" where
  "SaveGroups_tx xid domain accountID userID newGroups tx =
     (case saveLoop tx xid domain accountID userID newGroups (0, [], [], []) of
        Inl err \<Rightarrow> Inl err
      | Inr (n, groupsToSave, groupIDs, eventsToStore) \<Rightarrow>
          (case areGroupChangesAffectPeers tx accountID groupIDs of
             (upd, Some err) \<Rightarrow> Inl err
           | (upd, None) \<Rightarrow>
               (case IncrementNetworkSerial tx accountID of
                  Inl err \<Rightarrow> Inl err
                | Inr tx1 \<Rightarrow>
                    (case Store_SaveGroups tx1 groupsToSave of
                       Inl err \<Rightarrow> Inl err
                     | Inr tx2 \<Rightarrow> Inr ((eventsToStore, upd), tx2)))))"

definition SaveGroups ::
  "(nat \<Rightarrow> string) \<Rightarrow> DefaultAccountManager \<Rightarrow> string \<Rightarrow> string \<Rightarrow> Group list
     \<Rightarrow> error option \<times> DefaultAccountManager" where
  "SaveGroups xid am accountID userID newGroups =
     (case GetUserByUserID (am_Store am) userID of
        Inl err \<Rightarrow> (Some err, am)
      | Inr user \<Rightarrow>
          if User_AccountID user \<noteq> accountID then (Some NewUserNotPartOfAccountError, am)
          else if IsRegularUser user then (Some NewAdminPermissionError, am)
          else (case ExecuteInTransaction (am_Store am)
                       (SaveGroups_tx xid (dnsDomain am) accountID userID newGroups) of
                  Inl err \<Rightarrow> (Some err, am)
                | Inr ((eventsToStore, upd), s') \<Rightarrow>
                    (let am1 = foldl StoreEvent (am\<lparr>am_Store := s'\<rparr>) eventsToStore
                     in (None, if upd then updateAccountPeers am1 accountID else am1))))"

subsection \<open>DeleteGroups\<close>

text \<open>
  The loop over the IDs inside the transaction of \<open>DeleteGroups\<close>; its state is
  \<open>allErrors\<close>, \<open>groupIDsToDelete\<close> and \<open>deletedGroups\<close>.
\<close>

fun deleteLoop ::
  "Store \<Rightarrow> string \<Rightarrow> string \<Rightarrow> string list \<Rightarrow> error option \<times> string list \<times> Group list
     \<Rightarrow> error option \<times> string list \<times> Group list" where
  "deleteLoop s accountID userID [] st = st"
| "deleteLoop s accountID userID (groupID # rest) (allErrors, groupIDsToDelete, deletedGroups) =
     (case GetGroupByID s accountID groupID of
        Inl err \<Rightarrow>
          deleteLoop s accountID userID rest
            (errors_Join [allErrors, Some err], groupIDsToDelete, deletedGroups)
      | Inr g \<Rightarrow>
          (case validateDeleteGroup s g userID of
             Some err \<Rightarrow>
               deleteLoop s accountID userID rest
                 (errors_Join [allErrors, Some err], groupIDsToDelete, deletedGroups)
           | None \<Rightarrow>
               deleteLoop s accountID userID rest
                 (allErrors, groupIDsToDelete @ [groupID], deletedGroups @ [g])))"

definition DeleteGroups_tx ::
  "string \<Rightarrow> string \<Rightarrow> string list \<Rightarrow> Store \<Rightarrow> error + ((error option \<times> Group list) \<times> Store)" where
  "DeleteGroups_tx accountID userID groupIDs tx =
     (case deleteLoop tx accountID userID groupIDs (None, [], []) of
        (allErrors, groupIDsToDelete, deletedGroups) \<Rightarrow>
          (case IncrementNetworkSerial tx accountID of
             Inl err \<Rightarrow> Inl err
           | Inr tx1 \<Rightarrow>
               (case Store_DeleteGroups tx1 accountID groupIDsToDelete of
                  Inl err \<Rightarrow> Inl err
                | Inr tx2 \<Rightarrow> Inr ((allErrors, deletedGroups), tx2))))"

definition groupDeletedEvent :: "string \<Rightarrow> string \<Rightarrow> Group \<Rightarrow> Event" where
  "groupDeletedEvent accountID userID g =
     \<lparr>Event_InitiatorID = userID, Event_TargetID = Group_ID g, Event_AccountID = accountID,
      Event_Activity = GroupDeleted, Event_Meta = EventMeta_of g\<rparr>"

definition DeleteGroups ::
  "DefaultAccountManager \<Rightarrow> string \<Rightarrow> string \<Rightarrow> string list
     \<Rightarrow> error option \<times> DefaultAccountManager" where
  "DeleteGroups am accountID userID groupIDs =
     (case GetUserByUserID (am_Store am) userID of
        Inl err \<Rightarrow> (Some err, am)
      | Inr user \<Rightarrow>
          if User_AccountID user \<noteq> accountID then (Some NewUserNotPartOfAccountError, am)
          else if IsRegularUser user then (Some NewAdminPermissionError, am)
          else (case ExecuteInTransaction (am_Store am) (DeleteGroups_tx accountID userID groupIDs) of
                  Inl err \<Rightarrow> (Some err, am)
                | Inr ((allErrors, deletedGroups), s') \<Rightarrow>
                    (allErrors,
                     foldl StoreEvent (am\<lparr>am_Store := s'\<rparr>)
                       (map (groupDeletedEvent accountID userID) deletedGroups))))"

text \<open>
  What one pass of the loop decides for one ID: the error it records, or nil when the
  group is found and its deletion is accepted.
\<close>

definition deleteOutcome :: "Store \<Rightarrow> string \<Rightarrow> string \<Rightarrow> string \<Rightarrow> error option" where
  "deleteOutcome s accountID userID groupID =
     (case GetGroupByID s accountID groupID of
        Inl err \<Rightarrow> Some err
      | Inr g \<Rightarrow> validateDeleteGroup s g userID)"

subsection \<open>GroupAddPeer and GroupDeletePeer\<close>

text \<open>
  Both run the same transaction around the change of the member list; \<open>change\<close> is
  \<open>Group.AddPeer\<close> or \<open>Group.RemovePeer\<close>. The body returns \<open>updateAccountPeers\<close>.
\<close>

definition groupPeer_tx ::
  "(Group \<Rightarrow> string \<Rightarrow> bool \<times> Group) \<Rightarrow> string \<Rightarrow> string \<Rightarrow> string \<Rightarrow> Store
     \<Rightarrow> error + (bool \<times> Store)" where
  "groupPeer_tx change accountID groupID peerID tx =
     (case GetGroupByID tx accountID groupID of
        Inl err \<Rightarrow> Inl err
      | Inr g \<Rightarrow>
          (case change g peerID of
             (False, g') \<Rightarrow> Inr (False, tx)
           | (True, g') \<Rightarrow>
               (case areGroupChangesAffectPeers tx accountID [groupID] of
                  (upd, Some err) \<Rightarrow> Inl err
                | (upd, None) \<Rightarrow>
                    (case IncrementNetworkSerial tx accountID of
                       Inl err \<Rightarrow> Inl err
                     | Inr tx1 \<Rightarrow>
                         (case Store_SaveGroup tx1 g' of
                            Inl err \<Rightarrow> Inl err
                          | Inr tx2 \<Rightarrow> Inr (upd, tx2))))))"

definition groupPeer ::
  "(Group \<Rightarrow> string \<Rightarrow> bool \<times> Group) \<Rightarrow> DefaultAccountManager \<Rightarrow> string \<Rightarrow> string \<Rightarrow> string
     \<Rightarrow> error option \<times> DefaultAccountManager" where
  "groupPeer change am accountID groupID peerID =
     (case ExecuteInTransaction (am_Store am) (groupPeer_tx change accountID groupID peerID) of
        Inl err \<Rightarrow> (Some err, am)
      | Inr (upd, s') \<Rightarrow>
          (None, if upd then updateAccountPeers (am\<lparr>am_Store := s'\<rparr>) accountID
                 else am\<lparr>am_Store := s'\<rparr>))"

definition GroupAddPeer ::
  "DefaultAccountManager \<Rightarrow> string \<Rightarrow> string \<Rightarrow> string \<Rightarrow> error option \<times> DefaultAccountManager" where
  "GroupAddPeer am accountID groupID peerID = groupPeer AddPeer am accountID groupID peerID"

definition GroupDeletePeer ::
  "DefaultAccountManager \<Rightarrow> string \<Rightarrow> string \<Rightarrow> string \<Rightarrow> error option \<times> DefaultAccountManager" where
  "GroupDeletePeer am accountID groupID peerID = groupPeer RemovePeer am accountID groupID peerID"

subsection \<open>Example states\<close>

definition exampleStore :: Store where
  "exampleStore =
     \<lparr>accounts =
        [\<lparr>Account_Id = ''acc1'', Network_Serial = 7,
          Account_DNSSettings = \<lparr>DisabledManagementGroups = [''gDns'']\<rparr>,
          Account_Settings = \<lparr>Extra = Some \<lparr>IntegratedValidatorGroups = [''gVal'']\<rparr>\<rparr>\<rparr>,
         \<lparr>Account_Id = ''acc2'', Network_Serial = 3,
          Account_DNSSettings = \<lparr>DisabledManagementGroups = []\<rparr>,
          Account_Settings = \<lparr>Extra = None\<rparr>\<rparr>],
      users =
        [\<lparr>User_Id = ''admin'', User_AccountID = ''acc1'', User_Role = UserRoleAdmin,
          User_IsServiceUser = False, User_AutoGroups = [''gUsr'']\<rparr>,
         \<lparr>User_Id = ''bob'', User_AccountID = ''acc1'', User_Role = UserRoleUser,
          User_IsServiceUser = False, User_AutoGroups = []\<rparr>,
         \<lparr>User_Id = ''eve'', User_AccountID = ''acc2'', User_Role = UserRoleUser,
          User_IsServiceUser = False, User_AutoGroups = []\<rparr>],
      groups =
        [\<lparr>Group_ID = ''gAll'', Group_AccountID = ''acc1'', Group_Name = ''ALL'',
          Group_Issued = ''api'', Group_Peers = [''p1'', ''p2'']\<rparr>,
         \<lparr>Group_ID = ''gEng'', Group_AccountID = ''acc1'', Group_Name = ''eng'',
          Group_Issued = ''api'', Group_Peers = [''p1'']\<rparr>,
         \<lparr>Group_ID = ''gMisc'', Group_AccountID = ''acc1'', Group_Name = ''misc'',
          Group_Issued = ''api'', Group_Peers = []\<rparr>,
         \<lparr>Group_ID = ''gIdp'', Group_AccountID = ''acc1'', Group_Name = ''idp'',
          Group_Issued = ''integration'', Group_Peers = []\<rparr>,
         \<lparr>Group_ID = ''gRoute'', Group_AccountID = ''acc1'', Group_Name = ''routers'',
          Group_Issued = ''api'', Group_Peers = []\<rparr>],
      peers =
        [\<lparr>Peer_ID = ''p1'', Peer_AccountID = ''acc1'', Peer_IP = ''100.64.0.1'',
          Peer_DNSLabel = ''one''\<rparr>,
         \<lparr>Peer_ID = ''p2'', Peer_AccountID = ''acc1'', Peer_IP = ''100.64.0.2'',
          Peer_DNSLabel = ''two''\<rparr>],
      policies =
        [\<lparr>Policy_ID = ''pol0'', Policy_AccountID = ''acc1'', Policy_Name = ''Default'',
          Policy_Enabled = True,
          Policy_Rules = [\<lparr>Rule_Enabled = True, Rule_Sources = [''gAll''],
                           Rule_Destinations = [''gAll'']\<rparr>]\<rparr>,
         \<lparr>Policy_ID = ''pol1'', Policy_AccountID = ''acc1'', Policy_Name = ''eng-to-eng'',
          Policy_Enabled = True,
          Policy_Rules = [\<lparr>Rule_Enabled = True, Rule_Sources = [''gEng''],
                           Rule_Destinations = [''gEng'']\<rparr>]\<rparr>],
      routes =
        [\<lparr>Route_ID = ''r1'', Route_AccountID = ''acc1'', Route_NetID = ''net1'',
          Route_Groups = [''gRoute''], Route_PeerGroups = []\<rparr>],
      nameServerGroups =
        [\<lparr>NSGroup_ID = ''ns1'', NSGroup_AccountID = ''acc1'', NSGroup_Name = ''resolvers'',
          NSGroup_Groups = [''gNs'']\<rparr>],
      setupKeys =
        [\<lparr>SetupKey_Id = ''k1'', SetupKey_AccountID = ''acc1'', SetupKey_Name = ''laptops'',
          SetupKey_AutoGroups = [''gKey'']\<rparr>],
      failing = []\<rparr>"

definition exampleAccount :: Account where
  "exampleAccount =
     \<lparr>Account_Id = ''acc1'', Network_Serial = 7,
      Account_DNSSettings = \<lparr>DisabledManagementGroups = [''gDns'']\<rparr>,
      Account_Settings = \<lparr>Extra = Some \<lparr>IntegratedValidatorGroups = [''gVal'']\<rparr>\<rparr>\<rparr>"

definition groupAll :: Group where
  "groupAll = \<lparr>Group_ID = ''gAll'', Group_AccountID = ''acc1'', Group_Name = ''ALL'',
                Group_Issued = ''api'', Group_Peers = [''p1'', ''p2'']\<rparr>"

definition groupEng :: Group where
  "groupEng = \<lparr>Group_ID = ''gEng'', Group_AccountID = ''acc1'', Group_Name = ''eng'',
                Group_Issued = ''api'', Group_Peers = [''p1'']\<rparr>"

definition groupMisc :: Group where
  "groupMisc = \<lparr>Group_ID = ''gMisc'', Group_AccountID = ''acc1'', Group_Name = ''misc'',
                 Group_Issued = ''api'', Group_Peers = []\<rparr>"

text \<open>The same store while the five reads behind the linkage helpers fail.\<close>

definition failingStore :: Store where
  "failingStore = exampleStore\<lparr>failing := [OpGetAccountRoutes, OpGetAccountPolicies,
     OpGetAccountNameServerGroups, OpGetAccountSetupKeys, OpGetAccountUsers]\<rparr>"

definition exampleManager :: DefaultAccountManager where
  "exampleManager = \<lparr>am_Store = exampleStore, storedEvents = [], peerUpdates = [],
                      dnsDomain = ''netbird.selfhosted''\<rparr>"

definition adminUser :: User where
  "adminUser = \<lparr>User_Id = ''admin'', User_AccountID = ''acc1'', User_Role = UserRoleAdmin,
                 User_IsServiceUser = False, User_AutoGroups = [''gUsr'']\<rparr>"

text \<open>
  A resource of the given kind and name refers to the group: the kinds and names are
  those \<open>validateDeleteGroup\<close> and \<open>checkGroupLinkedToSettings\<close> put into a
  \<open>GroupLinkError\<close> (for the two settings lists the name is the name of the group).
\<close>

definition linkedResource :: "Store \<Rightarrow> string \<Rightarrow> Group \<Rightarrow> string \<Rightarrow> string \<Rightarrow> bool" where
  "linkedResource s accountID g resource name =
     ((resource = ''route'' \<and>
         list_ex (\<lambda>r. Route_AccountID r = accountID \<and> Route_NetID r = name \<and>
                       (Group_ID g \<in> set (Route_Groups r) \<or> Group_ID g \<in> set (Route_PeerGroups r)))
                 (routes s))
      \<or> (resource = ''name server groups'' \<and>
         list_ex (\<lambda>n. NSGroup_AccountID n = accountID \<and> NSGroup_Name n = name \<and>
                       Group_ID g \<in> set (NSGroup_Groups n))
                 (nameServerGroups s))
      \<or> (resource = ''policy'' \<and>
         list_ex (\<lambda>p. Policy_AccountID p = accountID \<and> Policy_Name p = name \<and>
                       list_ex (\<lambda>rule. Group_ID g \<in> set (Rule_Sources rule)
                                      \<or> Group_ID g \<in> set (Rule_Destinations rule)) (Policy_Rules p))
                 (policies s))
      \<or> (resource = ''setup key'' \<and>
         list_ex (\<lambda>k. SetupKey_AccountID k = accountID \<and> SetupKey_Name k = name \<and>
                       Group_ID g \<in> set (SetupKey_AutoGroups k))
                 (setupKeys s))
      \<or> (resource = ''user'' \<and>
         list_ex (\<lambda>u. User_AccountID u = accountID \<and> User_Id u = name \<and>
                       Group_ID g \<in> set (User_AutoGroups u))
                 (users s))
      \<or> (resource = ''disabled DNS management groups'' \<and> name = Group_Name g \<and>
         (case find (\<lambda>a. Account_Id a = accountID) (accounts s) of
            None \<Rightarrow> False
          | Some a \<Rightarrow> Group_ID g \<in> set (DisabledManagementGroups (Account_DNSSettings a))))
      \<or> (resource = ''integrated validator'' \<and> name = Group_Name g \<and>
         (case find (\<lambda>a. Account_Id a = accountID) (accounts s) of
            None \<Rightarrow> False
          | Some a \<Rightarrow>
              (case Extra (Account_Settings a) of
                 None \<Rightarrow> False
               | Some extra \<Rightarrow> Group_ID g \<in> set (IntegratedValidatorGroups extra)))))"

text \<open>The example store without policies: nothing refers to the ALL group.\<close>

definition unlinkedAllManager :: DefaultAccountManager where
  "unlinkedAllManager = exampleManager\<lparr>am_Store := exampleStore\<lparr>policies := []\<rparr>\<rparr>"

text \<open>An identifier supply for the examples, and a group that no store holds yet.\<close>

definition xidExample :: "nat \<Rightarrow> string" where
  "xidExample n = ''xid'' @ replicate n (CHR ''x'')"

definition groupOps :: Group where
  "groupOps = \<lparr>Group_ID = [], Group_AccountID = [], Group_Name = ''ops'',
                Group_Issued = ''api'', Group_Peers = [''p2'']\<rparr>"

text \<open>The example manager while the commit of a transaction fails.\<close>

definition failingCommitManager :: DefaultAccountManager where
  "failingCommitManager = exampleManager\<lparr>am_Store := exampleStore\<lparr>failing := [OpCommit]\<rparr>\<rparr>"

definition bobUser :: User where
  "bobUser = \<lparr>User_Id = ''bob'', User_AccountID = ''acc1'', User_Role = UserRoleUser,
          User_IsServiceUser = False, User_AutoGroups = []\<rparr>"

definition eveUser :: User where
  "eveUser = \<lparr>User_Id = ''eve'', User_AccountID = ''acc2'', User_Role = UserRoleUser,
          User_IsServiceUser = False, User_AutoGroups = []\<rparr>"

text \<open>The value of \<open>groupIDs\<close> when the loop of \<open>SaveGroups\<close> ends without error.\<close>

definition touchedGroupIDs ::
  "Store \<Rightarrow> (nat \<Rightarrow> string) \<Rightarrow> string \<Rightarrow> string \<Rightarrow> string \<Rightarrow> Group list \<Rightarrow> string list" where
  "touchedGroupIDs s xid domain accountID userID newGroups =
     (case saveLoop s xid domain accountID userID newGroups (0, [], [], []) of
        Inl err \<Rightarrow> []
      | Inr (n, groupsToSave, groupIDs, eventsToStore) \<Rightarrow> groupIDs)"

text \<open>
  The condition of the specification on a group and an account: the group is a source or
  a destination of an enabled rule of a policy of the account.
\<close>

definition inEnabledRule :: "Store \<Rightarrow> string \<Rightarrow> string \<Rightarrow> bool" where
  "inEnabledRule s accountID groupID =
     list_ex (\<lambda>p. Policy_AccountID p = accountID \<and>
                   list_ex (\<lambda>rule. Rule_Enabled rule \<and>
                                   (groupID \<in> set (Rule_Sources rule)
                                    \<or> groupID \<in> set (Rule_Destinations rule)))
                           (Policy_Rules p))
             (policies s)"

text \<open>The example store while the read of the policies fails.\<close>

definition policyReadFailingStore :: Store where
  "policyReadFailingStore = exampleStore\<lparr>failing := [OpGetAccountPolicies]\<rparr>"

section \<open>Properties\<close>

lemmas store_reads =
  fails_def GetUserByUserID_def GetGroupByID_def GetGroupByName_def GetPeerByID_def
  GetPeersByIDs_def GetAccountRoutes_def GetAccountPolicies_def GetAccountNameServerGroups_def
  GetAccountSetupKeys_def GetAccountUsers_def GetAccountDNSSettings_def GetAccountSettings_def

lemmas linkage_defs =
  isGroupLinkedToRoute_def isGroupLinkedToPolicy_def isGroupLinkedToDns_def
  isGroupLinkedToSetupKey_def isGroupLinkedToUser_def checkGroupLinkedToSettings_def
  linkError_def integrationGroupGuard_def validateDeleteGroup_def areGroupChangesAffectPeers_def
  GroupIssuedIntegration_def GroupIssuedAPI_def IsGroupAll_def

subsection \<open>Searching a table\<close>

lemma find_filter_None: "find P (filter Q xs) = None \<longleftrightarrow> (\<forall>x\<in>set xs. Q x \<longrightarrow> \<not> P x)"
  by (induction xs) auto

lemma find_map_user:
  "find (\<lambda>u. User_Id u = x) (map (\<lambda>u. u\<lparr>User_AutoGroups := []\<rparr>) us)
     = map_option (\<lambda>u. u\<lparr>User_AutoGroups := []\<rparr>) (find (\<lambda>u. User_Id u = x) us)"
  by (induction us) auto

subsection \<open>A failed read of a linkage helper\<close>

lemma route_read_fails:
  "fails s OpGetAccountRoutes \<Longrightarrow> isGroupLinkedToRoute s a g = (False, None)"
  by (simp add: isGroupLinkedToRoute_def GetAccountRoutes_def)

lemma policy_read_fails:
  "fails s OpGetAccountPolicies \<Longrightarrow> isGroupLinkedToPolicy s a g = (False, None)"
  by (simp add: isGroupLinkedToPolicy_def GetAccountPolicies_def)

lemma dns_read_fails:
  "fails s OpGetAccountNameServerGroups \<Longrightarrow> isGroupLinkedToDns s a g = (False, None)"
  by (simp add: isGroupLinkedToDns_def GetAccountNameServerGroups_def)

lemma setupkey_read_fails:
  "fails s OpGetAccountSetupKeys \<Longrightarrow> isGroupLinkedToSetupKey s a g = (False, None)"
  by (simp add: isGroupLinkedToSetupKey_def GetAccountSetupKeys_def)

lemma user_read_fails:
  "fails s OpGetAccountUsers \<Longrightarrow> isGroupLinkedToUser s a g = (False, None)"
  by (simp add: isGroupLinkedToUser_def GetAccountUsers_def)

subsection \<open>What each check reads\<close>

text \<open>Two stores that agree on the table and the read behind a check give the same answer.\<close>

lemma settings_frame:
  assumes "accounts t = accounts s"
    and "fails t OpGetAccountDNSSettings = fails s OpGetAccountDNSSettings"
    and "fails t OpGetAccountSettings = fails s OpGetAccountSettings"
  shows "checkGroupLinkedToSettings t g = checkGroupLinkedToSettings s g"
proof -
  have 1: "GetAccountDNSSettings t (Group_AccountID g) = GetAccountDNSSettings s (Group_AccountID g)"
    by (simp add: GetAccountDNSSettings_def assms)
  have 2: "GetAccountSettings t (Group_AccountID g) = GetAccountSettings s (Group_AccountID g)"
    by (simp add: GetAccountSettings_def assms)
  show ?thesis unfolding checkGroupLinkedToSettings_def 1 2 ..
qed

lemma guard_frame:
  "users t = users s \<Longrightarrow> fails t OpGetUserByUserID = fails s OpGetUserByUserID \<Longrightarrow>
     integrationGroupGuard t g userID = integrationGroupGuard s g userID"
  by (simp add: integrationGroupGuard_def GetUserByUserID_def)

lemma route_frame:
  "routes t = routes s \<Longrightarrow> fails t OpGetAccountRoutes = fails s OpGetAccountRoutes \<Longrightarrow>
     isGroupLinkedToRoute t a x = isGroupLinkedToRoute s a x"
  by (simp add: isGroupLinkedToRoute_def GetAccountRoutes_def)

lemma policy_frame:
  "policies t = policies s \<Longrightarrow> fails t OpGetAccountPolicies = fails s OpGetAccountPolicies \<Longrightarrow>
     isGroupLinkedToPolicy t a x = isGroupLinkedToPolicy s a x"
  by (simp add: isGroupLinkedToPolicy_def GetAccountPolicies_def)

lemma dns_frame:
  "nameServerGroups t = nameServerGroups s \<Longrightarrow>
   fails t OpGetAccountNameServerGroups = fails s OpGetAccountNameServerGroups \<Longrightarrow>
     isGroupLinkedToDns t a x = isGroupLinkedToDns s a x"
  by (simp add: isGroupLinkedToDns_def GetAccountNameServerGroups_def)

lemma setupkey_frame:
  "setupKeys t = setupKeys s \<Longrightarrow> fails t OpGetAccountSetupKeys = fails s OpGetAccountSetupKeys \<Longrightarrow>
     isGroupLinkedToSetupKey t a x = isGroupLinkedToSetupKey s a x"
  by (simp add: isGroupLinkedToSetupKey_def GetAccountSetupKeys_def)

lemma user_frame:
  "users t = users s \<Longrightarrow> fails t OpGetAccountUsers = fails s OpGetAccountUsers \<Longrightarrow>
     isGroupLinkedToUser t a x = isGroupLinkedToUser s a x"
  by (simp add: isGroupLinkedToUser_def GetAccountUsers_def)

lemma validate_frame:
  assumes "integrationGroupGuard t g userID = integrationGroupGuard s g userID"
    and "isGroupLinkedToRoute t (Group_AccountID g) (Group_ID g)
           = isGroupLinkedToRoute s (Group_AccountID g) (Group_ID g)"
    and "isGroupLinkedToDns t (Group_AccountID g) (Group_ID g)
           = isGroupLinkedToDns s (Group_AccountID g) (Group_ID g)"
    and "isGroupLinkedToPolicy t (Group_AccountID g) (Group_ID g)
           = isGroupLinkedToPolicy s (Group_AccountID g) (Group_ID g)"
    and "isGroupLinkedToSetupKey t (Group_AccountID g) (Group_ID g)
           = isGroupLinkedToSetupKey s (Group_AccountID g) (Group_ID g)"
    and "isGroupLinkedToUser t (Group_AccountID g) (Group_ID g)
           = isGroupLinkedToUser s (Group_AccountID g) (Group_ID g)"
    and "checkGroupLinkedToSettings t g = checkGroupLinkedToSettings s g"
  shows "validateDeleteGroup t g userID = validateDeleteGroup s g userID"
  unfolding validateDeleteGroup_def assms ..

lemma impact_frame:
  assumes "accounts t = accounts s"
    and "fails t OpGetAccountDNSSettings = fails s OpGetAccountDNSSettings"
    and "\<And>x. isGroupLinkedToRoute t a x = isGroupLinkedToRoute s a x"
    and "\<And>x. isGroupLinkedToDns t a x = isGroupLinkedToDns s a x"
    and "\<And>x. isGroupLinkedToPolicy t a x = isGroupLinkedToPolicy s a x"
  shows "areGroupChangesAffectPeers t a gs = areGroupChangesAffectPeers s a gs"
proof -
  have "groupsAffectPeers t a d gs = groupsAffectPeers s a d gs" for d
    by (induction gs) (simp_all add: assms(3-5))
  moreover have "GetAccountDNSSettings t a = GetAccountDNSSettings s a"
    using assms(1,2) by (simp add: GetAccountDNSSettings_def)
  ultimately show ?thesis
    unfolding areGroupChangesAffectPeers_def by (simp cong: sum.case_cong)
qed

subsection \<open>A failed read against the working store that holds nothing\<close>

lemma empty_table_unlinked:
  "\<not> fails s OpGetAccountRoutes \<Longrightarrow> routes s = [] \<Longrightarrow> isGroupLinkedToRoute s a x = (False, None)"
  "\<not> fails s OpGetAccountPolicies \<Longrightarrow> policies s = [] \<Longrightarrow> isGroupLinkedToPolicy s a x = (False, None)"
  "\<not> fails s OpGetAccountNameServerGroups \<Longrightarrow> nameServerGroups s = [] \<Longrightarrow>
     isGroupLinkedToDns s a x = (False, None)"
  "\<not> fails s OpGetAccountSetupKeys \<Longrightarrow> setupKeys s = [] \<Longrightarrow>
     isGroupLinkedToSetupKey s a x = (False, None)"
  by (simp_all add: isGroupLinkedToRoute_def GetAccountRoutes_def isGroupLinkedToPolicy_def
        GetAccountPolicies_def isGroupLinkedToDns_def GetAccountNameServerGroups_def
        isGroupLinkedToSetupKey_def GetAccountSetupKeys_def)

lemma no_autogroups_unlinked:
  "\<not> fails s OpGetAccountUsers \<Longrightarrow> \<forall>u\<in>set (users s). User_AutoGroups u = [] \<Longrightarrow>
     isGroupLinkedToUser s a x = (False, None)"
  by (simp add: isGroupLinkedToUser_def GetAccountUsers_def find_filter_None split: option.splits)

lemma validate_routes_fail:
  "fails s OpGetAccountRoutes \<Longrightarrow>
     validateDeleteGroup s g userID
       = validateDeleteGroup
           (s\<lparr>routes := [], failing := removeAll OpGetAccountRoutes (failing s)\<rparr>) g userID"
  by (rule validate_frame[symmetric];
      (rule guard_frame policy_frame dns_frame setupkey_frame user_frame settings_frame;
       simp add: fails_def)?;
      simp add: route_read_fails empty_table_unlinked fails_def)

lemma validate_policies_fail:
  "fails s OpGetAccountPolicies \<Longrightarrow>
     validateDeleteGroup s g userID
       = validateDeleteGroup
           (s\<lparr>policies := [], failing := removeAll OpGetAccountPolicies (failing s)\<rparr>) g userID"
  by (rule validate_frame[symmetric];
      (rule guard_frame route_frame dns_frame setupkey_frame user_frame settings_frame;
       simp add: fails_def)?;
      simp add: policy_read_fails empty_table_unlinked fails_def)

lemma validate_dns_fail:
  "fails s OpGetAccountNameServerGroups \<Longrightarrow>
     validateDeleteGroup s g userID
       = validateDeleteGroup
           (s\<lparr>nameServerGroups := [],
              failing := removeAll OpGetAccountNameServerGroups (failing s)\<rparr>) g userID"
  by (rule validate_frame[symmetric];
      (rule guard_frame route_frame policy_frame setupkey_frame user_frame settings_frame;
       simp add: fails_def)?;
      simp add: dns_read_fails empty_table_unlinked fails_def)

lemma validate_setupkeys_fail:
  "fails s OpGetAccountSetupKeys \<Longrightarrow>
     validateDeleteGroup s g userID
       = validateDeleteGroup
           (s\<lparr>setupKeys := [], failing := removeAll OpGetAccountSetupKeys (failing s)\<rparr>) g userID"
  by (rule validate_frame[symmetric];
      (rule guard_frame route_frame policy_frame dns_frame user_frame settings_frame;
       simp add: fails_def)?;
      simp add: setupkey_read_fails empty_table_unlinked fails_def)

lemma guard_no_autogroups:
  assumes "users t = map (\<lambda>u. u\<lparr>User_AutoGroups := []\<rparr>) (users s)"
    and "fails t OpGetUserByUserID = fails s OpGetUserByUserID"
  shows "integrationGroupGuard t g userID = integrationGroupGuard s g userID"
  by (cases "find (\<lambda>u. User_Id u = userID) (users s)")
     (simp_all add: integrationGroupGuard_def GetUserByUserID_def assms find_map_user)

lemma validate_users_fail:
  "fails s OpGetAccountUsers \<Longrightarrow>
     validateDeleteGroup s g userID
       = validateDeleteGroup
           (s\<lparr>users := map (\<lambda>u. u\<lparr>User_AutoGroups := []\<rparr>) (users s),
              failing := removeAll OpGetAccountUsers (failing s)\<rparr>) g userID"
  by (rule validate_frame[symmetric];
      (rule guard_no_autogroups route_frame policy_frame dns_frame setupkey_frame settings_frame;
       simp add: fails_def)?;
      simp add: user_read_fails no_autogroups_unlinked fails_def)

lemma impact_routes_fail:
  "fails s OpGetAccountRoutes \<Longrightarrow>
     areGroupChangesAffectPeers s a gs
       = areGroupChangesAffectPeers
           (s\<lparr>routes := [], failing := removeAll OpGetAccountRoutes (failing s)\<rparr>) a gs"
  by (rule impact_frame[symmetric]; (rule policy_frame dns_frame; simp add: fails_def)?;
      simp add: route_read_fails empty_table_unlinked fails_def)

lemma impact_policies_fail:
  "fails s OpGetAccountPolicies \<Longrightarrow>
     areGroupChangesAffectPeers s a gs
       = areGroupChangesAffectPeers
           (s\<lparr>policies := [], failing := removeAll OpGetAccountPolicies (failing s)\<rparr>) a gs"
  by (rule impact_frame[symmetric]; (rule route_frame dns_frame; simp add: fails_def)?;
      simp add: policy_read_fails empty_table_unlinked fails_def)

lemma impact_dns_fail:
  "fails s OpGetAccountNameServerGroups \<Longrightarrow>
     areGroupChangesAffectPeers s a gs
       = areGroupChangesAffectPeers
           (s\<lparr>nameServerGroups := [],
              failing := removeAll OpGetAccountNameServerGroups (failing s)\<rparr>) a gs"
  by (rule impact_frame[symmetric]; (rule route_frame policy_frame; simp add: fails_def)?;
      simp add: dns_read_fails empty_table_unlinked fails_def)

subsection \<open>What is left of the checks when the reads fail\<close>

lemma groupsAffectPeers_all_fail:
  assumes "fails s OpGetAccountRoutes" "fails s OpGetAccountPolicies"
    "fails s OpGetAccountNameServerGroups"
  shows "groupsAffectPeers s a d gs = (\<exists>G\<in>set gs. G \<in> set (DisabledManagementGroups d))"
  by (induction gs)
     (simp_all add: route_read_fails[OF assms(1)] policy_read_fails[OF assms(2)]
        dns_read_fails[OF assms(3)])

lemma impact_all_fail:
  assumes "fails s OpGetAccountRoutes" "fails s OpGetAccountPolicies"
    "fails s OpGetAccountNameServerGroups"
    and "GetAccountDNSSettings s a = Inr d"
  shows "areGroupChangesAffectPeers s a gs
           = (\<exists>G\<in>set gs. G \<in> set (DisabledManagementGroups d), None)"
  by (cases "gs = []")
     (simp_all add: areGroupChangesAffectPeers_def assms(4) groupsAffectPeers_all_fail[OF assms(1-3)])

lemma validate_all_fail:
  assumes "fails s OpGetAccountRoutes" "fails s OpGetAccountPolicies"
    "fails s OpGetAccountNameServerGroups" "fails s OpGetAccountSetupKeys"
    "fails s OpGetAccountUsers"
    and "integrationGroupGuard s g userID = None" "\<not> IsGroupAll g"
  shows "validateDeleteGroup s g userID = checkGroupLinkedToSettings s g"
  by (simp add: validateDeleteGroup_def assms(6,7) route_read_fails[OF assms(1)]
        policy_read_fails[OF assms(2)] dns_read_fails[OF assms(3)]
        setupkey_read_fails[OF assms(4)] user_read_fails[OF assms(5)])

text \<open>
  Claim C10. When the store read behind a linkage helper fails (routes, policies, name
  server groups, setup keys, users), the helper answers \<open>(False, None)\<close>. The validation
  of a deletion and the impact predicate then answer exactly what they answer on the
  store in which that read works and finds nothing (no route, no policy, no name server
  group, no setup key, no user with auto groups): the group counts as unlinked and the
  error of the read does not reach the caller. When the reads of routes, policies and
  name server groups all fail, the impact predicate answers without error and looks at
  the list of groups with DNS management disabled only; when the reads of setup keys and
  users fail as well, the validation of a group that passes its two guards is decided by
  the settings check alone.
\<close>

theorem failed_linkage_read_counts_as_unlinked:
  "(fails s OpGetAccountRoutes \<longrightarrow>
      isGroupLinkedToRoute s accountID groupID = (False, None)
      \<and> validateDeleteGroup s g userID
          = validateDeleteGroup
              (s\<lparr>routes := [], failing := removeAll OpGetAccountRoutes (failing s)\<rparr>) g userID
      \<and> areGroupChangesAffectPeers s accountID groupIDs
          = areGroupChangesAffectPeers
              (s\<lparr>routes := [], failing := removeAll OpGetAccountRoutes (failing s)\<rparr>)
              accountID groupIDs)
   \<and> (fails s OpGetAccountPolicies \<longrightarrow>
      isGroupLinkedToPolicy s accountID groupID = (False, None)
      \<and> validateDeleteGroup s g userID
          = validateDeleteGroup
              (s\<lparr>policies := [], failing := removeAll OpGetAccountPolicies (failing s)\<rparr>) g userID
      \<and> areGroupChangesAffectPeers s accountID groupIDs
          = areGroupChangesAffectPeers
              (s\<lparr>policies := [], failing := removeAll OpGetAccountPolicies (failing s)\<rparr>)
              accountID groupIDs)
   \<and> (fails s OpGetAccountNameServerGroups \<longrightarrow>
      isGroupLinkedToDns s accountID groupID = (False, None)
      \<and> validateDeleteGroup s g userID
          = validateDeleteGroup
              (s\<lparr>nameServerGroups := [],
                 failing := removeAll OpGetAccountNameServerGroups (failing s)\<rparr>) g userID
      \<and> areGroupChangesAffectPeers s accountID groupIDs
          = areGroupChangesAffectPeers
              (s\<lparr>nameServerGroups := [],
                 failing := removeAll OpGetAccountNameServerGroups (failing s)\<rparr>)
              accountID groupIDs)
   \<and> (fails s OpGetAccountSetupKeys \<longrightarrow>
      isGroupLinkedToSetupKey s accountID groupID = (False, None)
      \<and> validateDeleteGroup s g userID
          = validateDeleteGroup
              (s\<lparr>setupKeys := [], failing := removeAll OpGetAccountSetupKeys (failing s)\<rparr>)
              g userID)
   \<and> (fails s OpGetAccountUsers \<longrightarrow>
      isGroupLinkedToUser s accountID groupID = (False, None)
      \<and> validateDeleteGroup s g userID
          = validateDeleteGroup
              (s\<lparr>users := map (\<lambda>u. u\<lparr>User_AutoGroups := []\<rparr>) (users s),
                 failing := removeAll OpGetAccountUsers (failing s)\<rparr>) g userID)
   \<and> (fails s OpGetAccountRoutes \<and> fails s OpGetAccountPolicies
       \<and> fails s OpGetAccountNameServerGroups \<longrightarrow>
      (GetAccountDNSSettings s accountID = Inr dnsSettings \<longrightarrow>
         areGroupChangesAffectPeers s accountID groupIDs
           = (\<exists>G\<in>set groupIDs. G \<in> set (DisabledManagementGroups dnsSettings), None))
      \<and> (fails s OpGetAccountSetupKeys \<and> fails s OpGetAccountUsers
          \<and> integrationGroupGuard s g userID = None \<and> \<not> IsGroupAll g \<longrightarrow>
         validateDeleteGroup s g userID = checkGroupLinkedToSettings s g))"
  by (intro conjI impI; (elim conjE)?;
      (rule route_read_fails policy_read_fails dns_read_fails setupkey_read_fails
            user_read_fails validate_routes_fail validate_policies_fail validate_dns_fail
            validate_setupkeys_fail validate_users_fail impact_routes_fail impact_policies_fail
            impact_dns_fail impact_all_fail validate_all_fail);
      assumption)

text \<open>
  On the example store with the five reads failing, each helper denies the link that the
  tables hold; the deletion of \<open>eng\<close>, which a policy names, is accepted, and a change
  to \<open>eng\<close> or to \<open>routers\<close>, which a route names, has no impact.
\<close>

theorem failed_linkage_read_counts_as_unlinked_witness:
  "fails failingStore OpGetAccountRoutes \<and> fails failingStore OpGetAccountPolicies
   \<and> fails failingStore OpGetAccountNameServerGroups \<and> fails failingStore OpGetAccountSetupKeys
   \<and> fails failingStore OpGetAccountUsers
   \<and> isGroupLinkedToRoute failingStore ''acc1'' ''gRoute'' = (False, None)
   \<and> isGroupLinkedToPolicy failingStore ''acc1'' ''gEng'' = (False, None)
   \<and> isGroupLinkedToDns failingStore ''acc1'' ''gNs'' = (False, None)
   \<and> isGroupLinkedToSetupKey failingStore ''acc1'' ''gKey'' = (False, None)
   \<and> isGroupLinkedToUser failingStore ''acc1'' ''gUsr'' = (False, None)
   \<and> validateDeleteGroup failingStore groupEng ''admin'' = None
   \<and> areGroupChangesAffectPeers failingStore ''acc1'' [''gEng'', ''gRoute''] = (False, None)"
proof -
  have f: "fails failingStore OpGetAccountRoutes" "fails failingStore OpGetAccountPolicies"
    "fails failingStore OpGetAccountNameServerGroups" "fails failingStore OpGetAccountSetupKeys"
    "fails failingStore OpGetAccountUsers"
    by (simp_all add: failingStore_def fails_def)
  have d: "GetAccountDNSSettings failingStore ''acc1'' = Inr \<lparr>DisabledManagementGroups = [''gDns'']\<rparr>"
    by (simp add: failingStore_def exampleStore_def GetAccountDNSSettings_def fails_def)
  have g: "integrationGroupGuard failingStore groupEng ''admin'' = None" "\<not> IsGroupAll groupEng"
    by (simp_all add: integrationGroupGuard_def groupEng_def GroupIssuedIntegration_def IsGroupAll_def)
  have c: "checkGroupLinkedToSettings failingStore groupEng = None"
    by (simp add: checkGroupLinkedToSettings_def failingStore_def exampleStore_def groupEng_def
          GetAccountDNSSettings_def GetAccountSettings_def fails_def)
  note T = failed_linkage_read_counts_as_unlinked[where s = failingStore and accountID = "''acc1''"
             and g = groupEng and userID = "''admin''" and groupIDs = "[''gEng'', ''gRoute'']"
             and dnsSettings = "\<lparr>DisabledManagementGroups = [''gDns'']\<rparr>"]
  from T[where groupID = "''gRoute''", THEN conjunct1] f
  have 1: "isGroupLinkedToRoute failingStore ''acc1'' ''gRoute'' = (False, None)" by simp
  from T[where groupID = "''gEng''", THEN conjunct2, THEN conjunct1] f
  have 2: "isGroupLinkedToPolicy failingStore ''acc1'' ''gEng'' = (False, None)" by simp
  from T[where groupID = "''gNs''", THEN conjunct2, THEN conjunct2, THEN conjunct1] f
  have 3: "isGroupLinkedToDns failingStore ''acc1'' ''gNs'' = (False, None)" by simp
  from T[where groupID = "''gKey''", THEN conjunct2, THEN conjunct2, THEN conjunct2, THEN conjunct1] f
  have 4: "isGroupLinkedToSetupKey failingStore ''acc1'' ''gKey'' = (False, None)" by simp
  from T[where groupID = "''gUsr''", THEN conjunct2, THEN conjunct2, THEN conjunct2, THEN conjunct2,
         THEN conjunct1] f
  have 5: "isGroupLinkedToUser failingStore ''acc1'' ''gUsr'' = (False, None)" by simp
  from T[where groupID = "''gEng''", THEN conjunct2, THEN conjunct2, THEN conjunct2, THEN conjunct2,
         THEN conjunct2] f d g c
  have 6: "validateDeleteGroup failingStore groupEng ''admin'' = None
           \<and> areGroupChangesAffectPeers failingStore ''acc1'' [''gEng'', ''gRoute''] = (False, None)"
    by simp
  from f 1 2 3 4 5 6 show ?thesis by simp
qed

subsection \<open>The impact predicate against the linkage it is defined by\<close>

lemma groupsAffectPeers_mem:
  assumes "G \<in> set groupIDs"
    and "G \<in> set (DisabledManagementGroups d) \<or> fst (isGroupLinkedToPolicy s a G)
         \<or> fst (isGroupLinkedToRoute s a G)"
  shows "groupsAffectPeers s a d groupIDs"
  using assms by (induction groupIDs) auto

lemma policy_linked:
  assumes "\<not> fails s OpGetAccountPolicies"
    and "p \<in> set (policies s)" "Policy_AccountID p = a" "r \<in> set (Policy_Rules p)"
    and "G \<in> set (Rule_Sources r) \<or> G \<in> set (Rule_Destinations r)"
  shows "fst (isGroupLinkedToPolicy s a G)"
proof -
  let ?P = "\<lambda>p. list_ex (\<lambda>rule. G \<in> set (Rule_Sources rule) \<or> G \<in> set (Rule_Destinations rule))
                   (Policy_Rules p)"
  have "?P p" using assms(4,5) by (auto simp: list_ex_iff)
  then have "find ?P (filter (\<lambda>p. Policy_AccountID p = a) (policies s)) \<noteq> None"
    using assms(2,3) by (auto simp: find_filter_None)
  then show ?thesis using assms(1)
    by (auto simp: isGroupLinkedToPolicy_def GetAccountPolicies_def split: option.splits)
qed

lemma route_linked:
  assumes "\<not> fails s OpGetAccountRoutes"
    and "r \<in> set (routes s)" "Route_AccountID r = a"
    and "G \<in> set (Route_Groups r) \<or> G \<in> set (Route_PeerGroups r)"
  shows "fst (isGroupLinkedToRoute s a G)"
proof -
  let ?P = "\<lambda>r. G \<in> set (Route_Groups r) \<or> G \<in> set (Route_PeerGroups r)"
  have "find ?P (filter (\<lambda>r. Route_AccountID r = a) (routes s)) \<noteq> None"
    using assms(2-4) by (auto simp: find_filter_None)
  then show ?thesis using assms(1)
    by (auto simp: isGroupLinkedToRoute_def GetAccountRoutes_def split: option.splits)
qed

text \<open>
  Claim C2, as amended. Let the account exist and the reads of its DNS settings,
  policies and routes succeed. If \<open>G\<close> is a source or destination of an enabled rule of
  a policy of the account, or is in the account's list of groups with DNS management
  disabled, or is in the group or peer-group list of a route of the account, then
  \<open>areGroupChangesAffectPeers\<close> answers \<open>True\<close>, without error, for every list of group IDs
  that contains \<open>G\<close>. (While one of these reads fails the predicate can answer false
  for such a group.)
\<close>

theorem impact_has_no_false_negative:
  assumes mem: "G \<in> set groupIDs"
    and reads: "\<not> fails s OpGetAccountDNSSettings" "\<not> fails s OpGetAccountPolicies"
               "\<not> fails s OpGetAccountRoutes"
    and acc: "find (\<lambda>a. Account_Id a = accountID) (accounts s) = Some a"
    and linked:
      "(\<exists>p\<in>set (policies s). Policy_AccountID p = accountID \<and>
          (\<exists>r\<in>set (Policy_Rules p). Rule_Enabled r \<and>
             (G \<in> set (Rule_Sources r) \<or> G \<in> set (Rule_Destinations r))))
       \<or> G \<in> set (DisabledManagementGroups (Account_DNSSettings a))
       \<or> (\<exists>r\<in>set (routes s). Route_AccountID r = accountID \<and>
             (G \<in> set (Route_Groups r) \<or> G \<in> set (Route_PeerGroups r)))"
  shows "areGroupChangesAffectPeers s accountID groupIDs = (True, None)"
proof -
  have dns: "GetAccountDNSSettings s accountID = Inr (Account_DNSSettings a)"
    using reads(1) acc by (simp add: GetAccountDNSSettings_def)
  have "G \<in> set (DisabledManagementGroups (Account_DNSSettings a))
        \<or> fst (isGroupLinkedToPolicy s accountID G) \<or> fst (isGroupLinkedToRoute s accountID G)"
    using linked policy_linked[OF reads(2)] route_linked[OF reads(3)] by blast
  from groupsAffectPeers_mem[OF mem this]
  have "groupsAffectPeers s accountID (Account_DNSSettings a) groupIDs" .
  moreover have "groupIDs \<noteq> []" using mem by auto
  ultimately show ?thesis by (simp add: areGroupChangesAffectPeers_def dns)
qed

text \<open>On the example store: a group of a policy rule, one of the DNS list, one of a route.\<close>

theorem impact_has_no_false_negative_witness:
  "areGroupChangesAffectPeers exampleStore ''acc1'' [''gMisc'', ''gEng''] = (True, None)
   \<and> areGroupChangesAffectPeers exampleStore ''acc1'' [''gDns''] = (True, None)
   \<and> areGroupChangesAffectPeers exampleStore ''acc1'' [''gRoute'', ''gMisc''] = (True, None)"
proof -
  have r: "\<not> fails exampleStore OpGetAccountDNSSettings" "\<not> fails exampleStore OpGetAccountPolicies"
          "\<not> fails exampleStore OpGetAccountRoutes"
    by (simp_all add: fails_def exampleStore_def)
  have a: "find (\<lambda>a. Account_Id a = ''acc1'') (accounts exampleStore) = Some exampleAccount"
    by (simp add: exampleStore_def exampleAccount_def)
  have 1: "areGroupChangesAffectPeers exampleStore ''acc1'' [''gMisc'', ''gEng''] = (True, None)"
    by (rule impact_has_no_false_negative[OF _ r a, of "''gEng''"])
       (simp_all add: exampleStore_def exampleAccount_def)
  have 2: "areGroupChangesAffectPeers exampleStore ''acc1'' [''gDns''] = (True, None)"
    by (rule impact_has_no_false_negative[OF _ r a, of "''gDns''"])
       (simp_all add: exampleStore_def exampleAccount_def)
  have 3: "areGroupChangesAffectPeers exampleStore ''acc1'' [''gRoute'', ''gMisc''] = (True, None)"
    by (rule impact_has_no_false_negative[OF _ r a, of "''gRoute''"])
       (simp_all add: exampleStore_def exampleAccount_def)
  show ?thesis using 1 2 3 by simp
qed

text \<open>
  The claim as stated, for every state of the store, fails: while the read of the
  policies fails, the group \<open>eng\<close> is still a source of an enabled rule of the account,
  and the impact predicate answers false, without error, for the list that holds it.
\<close>

theorem impact_false_negative_counterexample:
  "inEnabledRule policyReadFailingStore ''acc1'' ''gEng''
   \<and> areGroupChangesAffectPeers policyReadFailingStore ''acc1'' [''gEng''] = (False, None)"
  by (simp add: inEnabledRule_def policyReadFailingStore_def exampleStore_def store_reads
        linkage_defs)

subsection \<open>An accepted deletion has no impact\<close>

lemma validate_None_unlinked:
  assumes "validateDeleteGroup s g userID = None"
  shows "\<not> fst (isGroupLinkedToRoute s (Group_AccountID g) (Group_ID g))"
    and "\<not> fst (isGroupLinkedToDns s (Group_AccountID g) (Group_ID g))"
    and "\<not> fst (isGroupLinkedToPolicy s (Group_AccountID g) (Group_ID g))"
    and "checkGroupLinkedToSettings s g = None"
  using assms unfolding validateDeleteGroup_def
  by (auto split: option.splits if_splits)

lemma settings_None_dns:
  assumes "checkGroupLinkedToSettings s g = None"
  shows "\<exists>d. GetAccountDNSSettings s (Group_AccountID g) = Inr d
              \<and> Group_ID g \<notin> set (DisabledManagementGroups d)"
  using assms unfolding checkGroupLinkedToSettings_def
  by (auto split: sum.splits if_splits)

text \<open>
  Claim C9. If \<open>validateDeleteGroup\<close> accepts a group (returns nil), then
  \<open>areGroupChangesAffectPeers\<close> over the list that holds only the ID of that group, in the
  account of the group, returns false without error.
\<close>

theorem validated_group_has_no_impact:
  assumes "validateDeleteGroup s g userID = None"
  shows "areGroupChangesAffectPeers s (Group_AccountID g) [Group_ID g] = (False, None)"
proof -
  from settings_None_dns[OF validate_None_unlinked(4)[OF assms]]
  obtain d where d: "GetAccountDNSSettings s (Group_AccountID g) = Inr d"
    and nd: "Group_ID g \<notin> set (DisabledManagementGroups d)" by blast
  show ?thesis
    using validate_None_unlinked(1-3)[OF assms] d nd
    by (simp add: areGroupChangesAffectPeers_def)
qed

theorem validated_group_has_no_impact_witness:
  "validateDeleteGroup exampleStore groupMisc ''admin'' = None
   \<and> areGroupChangesAffectPeers exampleStore ''acc1'' [''gMisc''] = (False, None)"
proof -
  have v: "validateDeleteGroup exampleStore groupMisc ''admin'' = None"
    by (simp add: exampleStore_def groupMisc_def store_reads linkage_defs)
  from validated_group_has_no_impact[OF v] v show ?thesis
    by (simp add: groupMisc_def)
qed

subsection \<open>The loop and the transaction of DeleteGroups\<close>

lemma read_errors_simple:
  "GetUserByUserID s u = Inl e \<Longrightarrow> unwrap e = [e]"
  "GetGroupByID s a g = Inl e \<Longrightarrow> unwrap e = [e]"
  "GetAccountDNSSettings s a = Inl e \<Longrightarrow> unwrap e = [e]"
  "GetAccountSettings s a = Inl e \<Longrightarrow> unwrap e = [e]"
  by (auto simp: store_reads storeError_def notFound_def split: if_splits option.splits)

lemma settings_error_simple: "checkGroupLinkedToSettings s g = Some e \<Longrightarrow> unwrap e = [e]"
  unfolding checkGroupLinkedToSettings_def
  by (auto split: sum.splits if_splits option.splits dest: read_errors_simple)

lemma guard_error_simple: "integrationGroupGuard s g u = Some e \<Longrightarrow> unwrap e = [e]"
  unfolding integrationGroupGuard_def
  by (auto split: sum.splits if_splits dest: read_errors_simple)

lemma linkError_simple: "unwrap (linkError r n x) = [linkError r n x]"
  by (cases x) (simp_all add: linkError_def)

lemma validate_error_simple: "validateDeleteGroup s g u = Some e \<Longrightarrow> unwrap e = [e]"
  unfolding validateDeleteGroup_def
  by (auto split: option.splits if_splits simp: linkError_simple
           dest: guard_error_simple settings_error_simple)

lemma outcome_error_simple: "deleteOutcome s a u gid = Some e \<Longrightarrow> unwrap e = [e]"
  unfolding deleteOutcome_def
  by (auto split: sum.splits dest: read_errors_simple validate_error_simple)

lemma unwrap_Join: "unwrap_opt (errors_Join [allErrors, Some e]) = unwrap_opt allErrors @ unwrap e"
  by (cases allErrors) (simp_all add: errors_Join_def List.map_filter_simps)

lemma deleteLoop_ids:
  "fst (snd (deleteLoop s a u gids (errs, ids, grps)))
     = ids @ filter (\<lambda>gid. deleteOutcome s a u gid = None) gids"
  by (induction gids arbitrary: errs ids grps)
     (auto simp: deleteOutcome_def split: sum.splits option.splits)

lemma deleteLoop_errors:
  "unwrap_opt (fst (deleteLoop s a u gids (errs, ids, grps)))
     = unwrap_opt errs @ List.map_filter (deleteOutcome s a u) gids"
proof (induction gids arbitrary: errs ids grps)
  case Nil
  then show ?case by (simp add: List.map_filter_simps)
next
  case (Cons gid gids)
  show ?case
  proof (cases "deleteOutcome s a u gid")
    case None
    then show ?thesis using Cons
      by (auto simp: deleteOutcome_def List.map_filter_simps split: sum.splits)
  next
    case (Some e)
    then have "unwrap e = [e]" by (rule outcome_error_simple)
    with Some show ?thesis using Cons
      by (auto simp: deleteOutcome_def List.map_filter_simps unwrap_Join split: sum.splits)
  qed
qed


lemma errors_Join_Some: "errors_Join [allErrors, Some e] \<noteq> None"
  by (cases allErrors) (simp_all add: errors_Join_def List.map_filter_simps)

lemma deleteLoop_None:
  "fst (deleteLoop s a u gids (errs, ids, grps)) = None
     \<longleftrightarrow> errs = None \<and> (\<forall>gid\<in>set gids. deleteOutcome s a u gid = None)"
  by (induction gids arbitrary: errs ids grps)
     (auto simp: deleteOutcome_def errors_Join_Some split: sum.splits option.splits)

lemma foldl_StoreEvent_store: "am_Store (foldl StoreEvent am es) = am_Store am"
  by (induction es arbitrary: am) (simp_all add: StoreEvent_def)

lemma foldl_StoreEvent_updates: "peerUpdates (foldl StoreEvent am es) = peerUpdates am"
  by (induction es arbitrary: am) (simp_all add: StoreEvent_def)

lemma foldl_StoreEvent_events: "storedEvents (foldl StoreEvent am es) = storedEvents am @ es"
  by (induction es arbitrary: am) (simp_all add: StoreEvent_def)

lemma DeleteGroups_tx_eq:
  "DeleteGroups_tx a u gids s =
     (if fails s OpIncrementNetworkSerial \<or> fails s OpDeleteGroups then Inl storeError
      else Inr ((fst (deleteLoop s a u gids (None, [], [])),
                 snd (snd (deleteLoop s a u gids (None, [], [])))),
                s\<lparr>accounts := map (\<lambda>x. if Account_Id x = a
                                        then x\<lparr>Network_Serial := Network_Serial x + 1\<rparr> else x)
                                  (accounts s),
                  groups := filter (\<lambda>g. \<not> (Group_AccountID g = a
                                \<and> Group_ID g \<in> set (fst (snd (deleteLoop s a u gids (None, [], []))))))
                              (groups s)\<rparr>))"
  by (cases "deleteLoop s a u gids (None, [], [])")
     (simp add: DeleteGroups_tx_def IncrementNetworkSerial_def Store_DeleteGroups_def fails_def)

lemma DeleteGroups_permitted:
  assumes "GetUserByUserID (am_Store am) u = Inr user" "User_AccountID user = a"
    "\<not> IsRegularUser user"
  shows "DeleteGroups am a u gids =
     (case ExecuteInTransaction (am_Store am) (DeleteGroups_tx a u gids) of
        Inl err \<Rightarrow> (Some err, am)
      | Inr ((allErrors, deletedGroups), s') \<Rightarrow>
          (allErrors, foldl StoreEvent (am\<lparr>am_Store := s'\<rparr>)
                        (map (groupDeletedEvent a u) deletedGroups)))"
  using assms by (simp add: DeleteGroups_def)

lemma DeleteGroups_committed:
  assumes "GetUserByUserID (am_Store am) u = Inr user" "User_AccountID user = a"
    "\<not> IsRegularUser user"
    and "\<not> fails (am_Store am) OpBeginTransaction" "\<not> fails (am_Store am) OpIncrementNetworkSerial"
        "\<not> fails (am_Store am) OpDeleteGroups" "\<not> fails (am_Store am) OpCommit"
  shows "fst (DeleteGroups am a u gids) = fst (deleteLoop (am_Store am) a u gids (None, [], []))"
    and "groups (am_Store (snd (DeleteGroups am a u gids)))
          = filter (\<lambda>g. \<not> (Group_AccountID g = a
                \<and> Group_ID g \<in> set (fst (snd (deleteLoop (am_Store am) a u gids (None, [], []))))))
              (groups (am_Store am))"
    and "accounts (am_Store (snd (DeleteGroups am a u gids)))
          = map (\<lambda>x. if Account_Id x = a
                                        then x\<lparr>Network_Serial := Network_Serial x + 1\<rparr> else x)
                                  (accounts (am_Store am))"
    and "storedEvents (snd (DeleteGroups am a u gids))
          = storedEvents am @ map (groupDeletedEvent a u)
               (snd (snd (deleteLoop (am_Store am) a u gids (None, [], []))))"
    and "peerUpdates (snd (DeleteGroups am a u gids)) = peerUpdates am"
  using assms(4-7)
  by (simp_all add: DeleteGroups_permitted[OF assms(1-3)] ExecuteInTransaction_def DeleteGroups_tx_eq
        foldl_StoreEvent_store foldl_StoreEvent_events foldl_StoreEvent_updates)

text \<open>
  Claim C3. When the requester is permitted and the transaction of \<open>DeleteGroups\<close>
  commits, the groups left in the store are those that were there except the groups of
  the account whose ID is in the list and passed validation; every group whose ID failed
  stays. The returned error wraps exactly the errors of the failing IDs, in order, and
  is nil if and only if no ID failed.
\<close>

theorem DeleteGroups_partial_success:
  assumes "GetUserByUserID (am_Store am) userID = Inr user" "User_AccountID user = accountID"
    "\<not> IsRegularUser user"
    and "\<not> fails (am_Store am) OpBeginTransaction" "\<not> fails (am_Store am) OpIncrementNetworkSerial"
        "\<not> fails (am_Store am) OpDeleteGroups" "\<not> fails (am_Store am) OpCommit"
  shows "groups (am_Store (snd (DeleteGroups am accountID userID groupIDs)))
           = filter (\<lambda>g. \<not> (Group_AccountID g = accountID \<and> Group_ID g \<in> set groupIDs
                            \<and> deleteOutcome (am_Store am) accountID userID (Group_ID g) = None))
               (groups (am_Store am))
         \<and> unwrap_opt (fst (DeleteGroups am accountID userID groupIDs))
           = List.map_filter (deleteOutcome (am_Store am) accountID userID) groupIDs
         \<and> (fst (DeleteGroups am accountID userID groupIDs) \<noteq> None
             \<longleftrightarrow> (\<exists>groupID\<in>set groupIDs.
                    deleteOutcome (am_Store am) accountID userID groupID \<noteq> None))"
proof -
  note c = DeleteGroups_committed[OF assms]
  have 1: "groups (am_Store (snd (DeleteGroups am accountID userID groupIDs)))
           = filter (\<lambda>g. \<not> (Group_AccountID g = accountID \<and> Group_ID g \<in> set groupIDs
                            \<and> deleteOutcome (am_Store am) accountID userID (Group_ID g) = None))
               (groups (am_Store am))"
    unfolding c(2) deleteLoop_ids by (rule filter_cong) auto
  have 2: "unwrap_opt (fst (DeleteGroups am accountID userID groupIDs))
           = List.map_filter (deleteOutcome (am_Store am) accountID userID) groupIDs"
    unfolding c(1) deleteLoop_errors by simp
  have 3: "fst (DeleteGroups am accountID userID groupIDs) \<noteq> None
             \<longleftrightarrow> (\<exists>groupID\<in>set groupIDs.
                    deleteOutcome (am_Store am) accountID userID groupID \<noteq> None)"
    unfolding c(1) deleteLoop_None by simp
  show ?thesis using 1 2 3 by blast
qed

lemmas am_defs = DeleteGroups_def DeleteGroups_tx_def ExecuteInTransaction_def
  IncrementNetworkSerial_def Store_DeleteGroups_def Store_SaveGroup_def Store_SaveGroups_def
  deleteOutcome_def errors_Join_def List.map_filter_simps StoreEvent_def updateAccountPeers_def
  IsRegularUser_def groupDeletedEvent_def EventMeta_of_def


lemma example_admin:
  "GetUserByUserID (am_Store exampleManager) ''admin'' = Inr adminUser"
  "User_AccountID adminUser = ''acc1''" "\<not> IsRegularUser adminUser"
  by (simp_all add: exampleManager_def exampleStore_def adminUser_def store_reads IsRegularUser_def)

lemma example_no_faults: "\<not> fails (am_Store exampleManager) op"
  by (simp add: exampleManager_def exampleStore_def fails_def)

text \<open>
  On the example store, deleting \<open>misc\<close> (deletable) and \<open>eng\<close> (named by a policy)
  removes \<open>misc\<close>, keeps \<open>eng\<close> and returns the link error of \<open>eng\<close>.
\<close>

theorem DeleteGroups_partial_success_witness:
  "map Group_ID (groups (am_Store (snd (DeleteGroups exampleManager ''acc1'' ''admin'' [''gMisc'', ''gEng'']))))
     = [''gAll'', ''gEng'', ''gIdp'', ''gRoute'']
   \<and> unwrap_opt (fst (DeleteGroups exampleManager ''acc1'' ''admin'' [''gMisc'', ''gEng'']))
     = [GroupLinkError ''policy'' ''eng-to-eng'']
   \<and> fst (DeleteGroups exampleManager ''acc1'' ''admin'' [''gMisc'', ''gEng'']) \<noteq> None"
proof -
  note T = DeleteGroups_partial_success[OF example_admin example_no_faults example_no_faults
             example_no_faults example_no_faults, of "[''gMisc'', ''gEng'']"]
  have o: "deleteOutcome (am_Store exampleManager) ''acc1'' ''admin'' ''gMisc'' = None"
    "deleteOutcome (am_Store exampleManager) ''acc1'' ''admin'' ''gEng''
       = Some (GroupLinkError ''policy'' ''eng-to-eng'')"
    by (simp_all add: exampleManager_def exampleStore_def store_reads linkage_defs deleteOutcome_def)
  have g: "map Group_ID (filter (\<lambda>g. \<not> (Group_AccountID g = ''acc1'' \<and> Group_ID g \<in> set [''gMisc'', ''gEng'']
                            \<and> deleteOutcome (am_Store exampleManager) ''acc1'' ''admin'' (Group_ID g) = None))
               (groups (am_Store exampleManager)))
             = [''gAll'', ''gEng'', ''gIdp'', ''gRoute'']"
    by (simp add: exampleManager_def exampleStore_def store_reads linkage_defs deleteOutcome_def)
  show ?thesis using T g by (simp add: o List.map_filter_simps)
qed

subsection \<open>Deleting a group that something refers to\<close>

lemma find_filter_Some:
  "find P (filter Q xs) = Some x \<Longrightarrow> x \<in> set xs \<and> Q x \<and> P x"
  by (induction xs) (auto split: if_splits)

lemma find_Some_mem: "find P xs = Some x \<Longrightarrow> x \<in> set xs \<and> P x"
  by (induction xs) (auto split: if_splits)

lemma route_helper_cases:
  assumes "\<not> fails s OpGetAccountRoutes"
  shows "(isGroupLinkedToRoute s a G = (False, None)
           \<and> (\<forall>r\<in>set (routes s). Route_AccountID r = a \<longrightarrow>
                 G \<notin> set (Route_Groups r) \<and> G \<notin> set (Route_PeerGroups r)))
       \<or> (\<exists>r\<in>set (routes s). isGroupLinkedToRoute s a G = (True, Some r) \<and> Route_AccountID r = a
             \<and> (G \<in> set (Route_Groups r) \<or> G \<in> set (Route_PeerGroups r)))"
proof (cases "find (\<lambda>r. G \<in> set (Route_Groups r) \<or> G \<in> set (Route_PeerGroups r))
                (filter (\<lambda>r. Route_AccountID r = a) (routes s))")
  case None
  note n = None[unfolded find_filter_None]
  show ?thesis using assms None n
    by (auto simp: isGroupLinkedToRoute_def GetAccountRoutes_def)
next
  case (Some r)
  from find_filter_Some[OF Some] Some show ?thesis using assms
    by (auto simp: isGroupLinkedToRoute_def GetAccountRoutes_def)
qed

lemma dns_helper_cases:
  assumes "\<not> fails s OpGetAccountNameServerGroups"
  shows "(isGroupLinkedToDns s a G = (False, None)
           \<and> (\<forall>n\<in>set (nameServerGroups s). NSGroup_AccountID n = a \<longrightarrow> G \<notin> set (NSGroup_Groups n)))
       \<or> (\<exists>n\<in>set (nameServerGroups s). isGroupLinkedToDns s a G = (True, Some n)
             \<and> NSGroup_AccountID n = a \<and> G \<in> set (NSGroup_Groups n))"
proof (cases "find (\<lambda>dns. list_ex (\<lambda>g. g = G) (NSGroup_Groups dns))
                (filter (\<lambda>n. NSGroup_AccountID n = a) (nameServerGroups s))")
  case None
  note n = None[unfolded find_filter_None]
  show ?thesis using assms None n
    by (auto simp: isGroupLinkedToDns_def GetAccountNameServerGroups_def list_ex_iff)
next
  case (Some n)
  from find_filter_Some[OF Some] Some show ?thesis using assms
    by (auto simp: isGroupLinkedToDns_def GetAccountNameServerGroups_def list_ex_iff)
qed

lemma policy_helper_cases:
  assumes "\<not> fails s OpGetAccountPolicies"
  shows "(isGroupLinkedToPolicy s a G = (False, None)
           \<and> (\<forall>p\<in>set (policies s). Policy_AccountID p = a \<longrightarrow>
                 \<not> list_ex (\<lambda>rule. G \<in> set (Rule_Sources rule) \<or> G \<in> set (Rule_Destinations rule))
                     (Policy_Rules p)))
       \<or> (\<exists>p\<in>set (policies s). isGroupLinkedToPolicy s a G = (True, Some p)
             \<and> Policy_AccountID p = a
             \<and> list_ex (\<lambda>rule. G \<in> set (Rule_Sources rule) \<or> G \<in> set (Rule_Destinations rule))
                     (Policy_Rules p))"
proof (cases "find (\<lambda>p. list_ex (\<lambda>rule. G \<in> set (Rule_Sources rule) \<or> G \<in> set (Rule_Destinations rule))
                     (Policy_Rules p))
                (filter (\<lambda>p. Policy_AccountID p = a) (policies s))")
  case None
  note n = None[unfolded find_filter_None]
  show ?thesis using assms None n
    by (auto simp: isGroupLinkedToPolicy_def GetAccountPolicies_def)
next
  case (Some p)
  from find_filter_Some[OF Some] Some show ?thesis using assms
    by (auto simp: isGroupLinkedToPolicy_def GetAccountPolicies_def)
qed

lemma setupkey_helper_cases:
  assumes "\<not> fails s OpGetAccountSetupKeys"
  shows "(isGroupLinkedToSetupKey s a G = (False, None)
           \<and> (\<forall>k\<in>set (setupKeys s). SetupKey_AccountID k = a \<longrightarrow> G \<notin> set (SetupKey_AutoGroups k)))
       \<or> (\<exists>k\<in>set (setupKeys s). isGroupLinkedToSetupKey s a G = (True, Some k)
             \<and> SetupKey_AccountID k = a \<and> G \<in> set (SetupKey_AutoGroups k))"
proof (cases "find (\<lambda>k. G \<in> set (SetupKey_AutoGroups k))
                (filter (\<lambda>k. SetupKey_AccountID k = a) (setupKeys s))")
  case None
  note n = None[unfolded find_filter_None]
  show ?thesis using assms None n
    by (auto simp: isGroupLinkedToSetupKey_def GetAccountSetupKeys_def)
next
  case (Some k)
  from find_filter_Some[OF Some] Some show ?thesis using assms
    by (auto simp: isGroupLinkedToSetupKey_def GetAccountSetupKeys_def)
qed

lemma user_helper_cases:
  assumes "\<not> fails s OpGetAccountUsers"
  shows "(isGroupLinkedToUser s a G = (False, None)
           \<and> (\<forall>u\<in>set (users s). User_AccountID u = a \<longrightarrow> G \<notin> set (User_AutoGroups u)))
       \<or> (\<exists>u\<in>set (users s). isGroupLinkedToUser s a G = (True, Some u)
             \<and> User_AccountID u = a \<and> G \<in> set (User_AutoGroups u))"
proof (cases "find (\<lambda>u. G \<in> set (User_AutoGroups u))
                (filter (\<lambda>u. User_AccountID u = a) (users s))")
  case None
  note n = None[unfolded find_filter_None]
  show ?thesis using assms None n
    by (auto simp: isGroupLinkedToUser_def GetAccountUsers_def)
next
  case (Some u)
  from find_filter_Some[OF Some] Some show ?thesis using assms
    by (auto simp: isGroupLinkedToUser_def GetAccountUsers_def)
qed

lemma linkedResource_kind:
  "linkedResource s a g ''route'' n =
     list_ex (\<lambda>r. Route_AccountID r = a \<and> Route_NetID r = n \<and>
                       (Group_ID g \<in> set (Route_Groups r) \<or> Group_ID g \<in> set (Route_PeerGroups r)))
                 (routes s)"
  "linkedResource s a g ''name server groups'' n =
     list_ex (\<lambda>x. NSGroup_AccountID x = a \<and> NSGroup_Name x = n \<and>
                       Group_ID g \<in> set (NSGroup_Groups x))
                 (nameServerGroups s)"
  "linkedResource s a g ''policy'' n =
     list_ex (\<lambda>p. Policy_AccountID p = a \<and> Policy_Name p = n \<and>
                       list_ex (\<lambda>rule. Group_ID g \<in> set (Rule_Sources rule)
                                      \<or> Group_ID g \<in> set (Rule_Destinations rule)) (Policy_Rules p))
                 (policies s)"
  "linkedResource s a g ''setup key'' n =
     list_ex (\<lambda>k. SetupKey_AccountID k = a \<and> SetupKey_Name k = n \<and>
                       Group_ID g \<in> set (SetupKey_AutoGroups k))
                 (setupKeys s)"
  "linkedResource s a g ''user'' n =
     list_ex (\<lambda>u. User_AccountID u = a \<and> User_Id u = n \<and>
                       Group_ID g \<in> set (User_AutoGroups u))
                 (users s)"
  "linkedResource s a g ''disabled DNS management groups'' n =
     (n = Group_Name g \<and>
         (case find (\<lambda>x. Account_Id x = a) (accounts s) of
            None \<Rightarrow> False
          | Some x \<Rightarrow> Group_ID g \<in> set (DisabledManagementGroups (Account_DNSSettings x))))"
  "linkedResource s a g ''integrated validator'' n =
     (n = Group_Name g \<and>
         (case find (\<lambda>x. Account_Id x = a) (accounts s) of
            None \<Rightarrow> False
          | Some x \<Rightarrow>
              (case Extra (Account_Settings x) of
                 None \<Rightarrow> False
               | Some extra \<Rightarrow> Group_ID g \<in> set (IntegratedValidatorGroups extra))))"
  by (simp_all add: linkedResource_def)

lemma linkedResource_cases:
  assumes "linkedResource s a g resource name"
  shows "linkedResource s a g ''route'' name \<or> linkedResource s a g ''name server groups'' name
       \<or> linkedResource s a g ''policy'' name \<or> linkedResource s a g ''setup key'' name
       \<or> linkedResource s a g ''user'' name
       \<or> linkedResource s a g ''disabled DNS management groups'' (Group_Name g)
       \<or> linkedResource s a g ''integrated validator'' (Group_Name g)"
  using assms unfolding linkedResource_kind
  unfolding linkedResource_def by (elim disjE conjE) simp_all

lemma settings_cases:
  assumes "\<not> fails s OpGetAccountDNSSettings" "\<not> fails s OpGetAccountSettings"
  shows "checkGroupLinkedToSettings s g =
     (if linkedResource s (Group_AccountID g) g ''disabled DNS management groups'' (Group_Name g)
      then Some (GroupLinkError ''disabled DNS management groups'' (Group_Name g))
      else if linkedResource s (Group_AccountID g) g ''integrated validator'' (Group_Name g)
      then Some (GroupLinkError ''integrated validator'' (Group_Name g))
      else case find (\<lambda>a. Account_Id a = Group_AccountID g) (accounts s) of
             None \<Rightarrow> Some (notFound ''account'') | Some a \<Rightarrow> None)"
  using assms
  by (auto simp: checkGroupLinkedToSettings_def linkedResource_kind GetAccountDNSSettings_def
        GetAccountSettings_def split: option.splits)

lemma validate_linked:
  assumes nf: "failing s = []"
    and guard: "integrationGroupGuard s g u = None"
    and nall: "\<not> IsGroupAll g"
    and linked: "linkedResource s (Group_AccountID g) g resource name"
  shows "\<exists>resource' name'. validateDeleteGroup s g u = Some (GroupLinkError resource' name')
            \<and> linkedResource s (Group_AccountID g) g resource' name'"
proof -
  have f: "\<not> fails s op" for op by (simp add: fails_def nf)
  let ?a = "Group_AccountID g" and ?G = "Group_ID g"
  note R = route_helper_cases[OF f, of ?a ?G]
  note D = dns_helper_cases[OF f, of ?a ?G]
  note P = policy_helper_cases[OF f, of ?a ?G]
  note K = setupkey_helper_cases[OF f, of ?a ?G]
  note U = user_helper_cases[OF f, of ?a ?G]
  note S = settings_cases[OF f f, of g]
  consider (r) "fst (isGroupLinkedToRoute s ?a ?G)"
    | (d) "\<not> fst (isGroupLinkedToRoute s ?a ?G)" "fst (isGroupLinkedToDns s ?a ?G)"
    | (p) "\<not> fst (isGroupLinkedToRoute s ?a ?G)" "\<not> fst (isGroupLinkedToDns s ?a ?G)"
          "fst (isGroupLinkedToPolicy s ?a ?G)"
    | (k) "\<not> fst (isGroupLinkedToRoute s ?a ?G)" "\<not> fst (isGroupLinkedToDns s ?a ?G)"
          "\<not> fst (isGroupLinkedToPolicy s ?a ?G)" "fst (isGroupLinkedToSetupKey s ?a ?G)"
    | (u) "\<not> fst (isGroupLinkedToRoute s ?a ?G)" "\<not> fst (isGroupLinkedToDns s ?a ?G)"
          "\<not> fst (isGroupLinkedToPolicy s ?a ?G)" "\<not> fst (isGroupLinkedToSetupKey s ?a ?G)"
          "fst (isGroupLinkedToUser s ?a ?G)"
    | (n) "\<not> fst (isGroupLinkedToRoute s ?a ?G)" "\<not> fst (isGroupLinkedToDns s ?a ?G)"
          "\<not> fst (isGroupLinkedToPolicy s ?a ?G)" "\<not> fst (isGroupLinkedToSetupKey s ?a ?G)"
          "\<not> fst (isGroupLinkedToUser s ?a ?G)"
    by blast
  then show ?thesis
  proof cases
    case r
    with R obtain x where x: "x \<in> set (routes s)" "isGroupLinkedToRoute s ?a ?G = (True, Some x)"
      "Route_AccountID x = ?a" "?G \<in> set (Route_Groups x) \<or> ?G \<in> set (Route_PeerGroups x)"
      by auto
    have "validateDeleteGroup s g u = Some (GroupLinkError ''route'' (Route_NetID x))"
      by (simp add: validateDeleteGroup_def guard nall x(2) linkError_def)
    moreover have "linkedResource s ?a g ''route'' (Route_NetID x)"
      using x by (auto simp: linkedResource_kind list_ex_iff)
    ultimately show ?thesis by blast
  next
    case d
    with D obtain x where x: "x \<in> set (nameServerGroups s)"
      "isGroupLinkedToDns s ?a ?G = (True, Some x)"
      "NSGroup_AccountID x = ?a" "?G \<in> set (NSGroup_Groups x)"
      by auto
    have "validateDeleteGroup s g u = Some (GroupLinkError ''name server groups'' (NSGroup_Name x))"
      using d(1) by (simp add: validateDeleteGroup_def guard nall x(2) linkError_def)
    moreover have "linkedResource s ?a g ''name server groups'' (NSGroup_Name x)"
      using x by (auto simp: linkedResource_kind list_ex_iff)
    ultimately show ?thesis by blast
  next
    case p
    with P obtain x where x: "x \<in> set (policies s)"
      "isGroupLinkedToPolicy s ?a ?G = (True, Some x)" "Policy_AccountID x = ?a"
      "list_ex (\<lambda>rule. ?G \<in> set (Rule_Sources rule) \<or> ?G \<in> set (Rule_Destinations rule))
           (Policy_Rules x)"
      by auto
    have "validateDeleteGroup s g u = Some (GroupLinkError ''policy'' (Policy_Name x))"
      using p(1,2) by (simp add: validateDeleteGroup_def guard nall x(2) linkError_def)
    moreover have "linkedResource s ?a g ''policy'' (Policy_Name x)"
      using x unfolding linkedResource_kind list_ex_iff[of _ "policies s"] by blast
    ultimately show ?thesis by blast
  next
    case k
    with K obtain x where x: "x \<in> set (setupKeys s)"
      "isGroupLinkedToSetupKey s ?a ?G = (True, Some x)" "SetupKey_AccountID x = ?a"
      "?G \<in> set (SetupKey_AutoGroups x)"
      by auto
    have "validateDeleteGroup s g u = Some (GroupLinkError ''setup key'' (SetupKey_Name x))"
      using k(1-3) by (simp add: validateDeleteGroup_def guard nall x(2) linkError_def)
    moreover have "linkedResource s ?a g ''setup key'' (SetupKey_Name x)"
      using x by (auto simp: linkedResource_kind list_ex_iff)
    ultimately show ?thesis by blast
  next
    case u
    with U obtain x where x: "x \<in> set (users s)"
      "isGroupLinkedToUser s ?a ?G = (True, Some x)" "User_AccountID x = ?a"
      "?G \<in> set (User_AutoGroups x)"
      by auto
    have "validateDeleteGroup s g u = Some (GroupLinkError ''user'' (User_Id x))"
      using u(1-4) by (simp add: validateDeleteGroup_def guard nall x(2) linkError_def)
    moreover have "linkedResource s ?a g ''user'' (User_Id x)"
      using x by (auto simp: linkedResource_kind list_ex_iff)
    ultimately show ?thesis by blast
  next
    case n
    have v: "validateDeleteGroup s g u = checkGroupLinkedToSettings s g"
      using n by (simp add: validateDeleteGroup_def guard nall)
    from n R D P K U have none:
      "\<forall>r\<in>set (routes s). Route_AccountID r = ?a \<longrightarrow>
                 ?G \<notin> set (Route_Groups r) \<and> ?G \<notin> set (Route_PeerGroups r)"
      "\<forall>n\<in>set (nameServerGroups s). NSGroup_AccountID n = ?a \<longrightarrow> ?G \<notin> set (NSGroup_Groups n)"
      "\<forall>p\<in>set (policies s). Policy_AccountID p = ?a \<longrightarrow>
                 \<not> list_ex (\<lambda>rule. ?G \<in> set (Rule_Sources rule) \<or> ?G \<in> set (Rule_Destinations rule))
                     (Policy_Rules p)"
      "\<forall>k\<in>set (setupKeys s). SetupKey_AccountID k = ?a \<longrightarrow> ?G \<notin> set (SetupKey_AutoGroups k)"
      "\<forall>u\<in>set (users s). User_AccountID u = ?a \<longrightarrow> ?G \<notin> set (User_AutoGroups u)"
      by auto
    have "linkedResource s ?a g ''disabled DNS management groups'' (Group_Name g)
          \<or> linkedResource s ?a g ''integrated validator'' (Group_Name g)"
      using linkedResource_cases[OF linked] none
      unfolding linkedResource_kind(1-5) list_ex_iff[of _ "routes s"]
        list_ex_iff[of _ "nameServerGroups s"] list_ex_iff[of _ "policies s"]
        list_ex_iff[of _ "setupKeys s"] list_ex_iff[of _ "users s"]
      by blast
    then show ?thesis unfolding v S by auto
  qed
qed


lemma GetGroupByID_Inr:
  "GetGroupByID s a G = Inr g \<Longrightarrow> Group_ID g = G \<and> Group_AccountID g = a \<and> g \<in> set (groups s)"
  by (auto simp: GetGroupByID_def split: if_splits option.splits dest: find_Some_mem)

lemma deleteLoop_single:
  "deleteOutcome s a u gid = Some e \<Longrightarrow>
     deleteLoop s a u [gid] (None, [], []) = (Some (JoinError [e]), [], [])"
  by (auto simp: deleteOutcome_def errors_Join_def List.map_filter_simps split: sum.splits)

lemma guard_permitted:
  assumes "GetUserByUserID s u = Inr user"
    and "Group_Issued g = GroupIssuedIntegration \<longrightarrow>
           User_Role user = UserRoleAdmin \<and> User_IsServiceUser user"
  shows "integrationGroupGuard s g u = None"
  using assms by (simp add: integrationGroupGuard_def)

lemma DeleteGroups_failing:
  "failing (am_Store (snd (DeleteGroups am a u gids))) = failing (am_Store am)"
  unfolding DeleteGroups_def ExecuteInTransaction_def DeleteGroups_tx_eq
  by (simp add: foldl_StoreEvent_store split: sum.splits prod.splits)

text \<open>
  Claim C5, as amended. Let the requester be permitted (a user of the account who is not a
  regular user), let no store operation fail, and let \<open>G\<close> be a group of the account
  that is not the ALL group and, when it is issued by an integration, let the requester be
  a service user with the admin role. If a route, a name server group, a policy rule, a
  setup key, a user or one of the two settings lists refers to \<open>G\<close>, then
  \<open>DeleteGroups [G]\<close> returns the join of one \<open>GroupLinkError\<close> whose kind and name are
  those of a resource that refers to \<open>G\<close>, and \<open>G\<close> is still in the store afterwards.
\<close>

theorem linked_group_is_not_deleted:
  assumes user: "GetUserByUserID (am_Store am) userID = Inr user"
                "User_AccountID user = accountID" "\<not> IsRegularUser user"
    and nf: "failing (am_Store am) = []"
    and grp: "GetGroupByID (am_Store am) accountID G = Inr g"
    and nall: "\<not> IsGroupAll g"
    and integ: "Group_Issued g = GroupIssuedIntegration \<longrightarrow>
                  User_Role user = UserRoleAdmin \<and> User_IsServiceUser user"
    and linked: "linkedResource (am_Store am) accountID g resource name"
  shows "\<exists>resource' name'.
           fst (DeleteGroups am accountID userID [G])
             = Some (JoinError [GroupLinkError resource' name'])
           \<and> linkedResource (am_Store am) accountID g resource' name'
           \<and> groups (am_Store (snd (DeleteGroups am accountID userID [G]))) = groups (am_Store am)
           \<and> GetGroupByID (am_Store (snd (DeleteGroups am accountID userID [G]))) accountID G = Inr g"
proof -
  let ?s = "am_Store am"
  have f: "\<not> fails ?s op" for op by (simp add: fails_def nf)
  from GetGroupByID_Inr[OF grp] have g: "Group_ID g = G" "Group_AccountID g = accountID" by auto
  from validate_linked[OF nf guard_permitted[OF user(1) integ] nall, of resource name] linked g
  obtain r n where v: "validateDeleteGroup ?s g userID = Some (GroupLinkError r n)"
    and l: "linkedResource ?s accountID g r n" by auto
  have o: "deleteOutcome ?s accountID userID G = Some (GroupLinkError r n)"
    by (simp add: deleteOutcome_def grp v)
  note c = DeleteGroups_committed[OF user f f f f, of "[G]", unfolded deleteLoop_single[OF o]]
  have 1: "fst (DeleteGroups am accountID userID [G]) = Some (JoinError [GroupLinkError r n])"
    using c(1) by simp
  have 2: "groups (am_Store (snd (DeleteGroups am accountID userID [G]))) = groups ?s"
    using c(2) by simp
  have "GetGroupByID (am_Store (snd (DeleteGroups am accountID userID [G]))) accountID G
          = GetGroupByID ?s accountID G"
    by (simp add: GetGroupByID_def fails_def 2 DeleteGroups_failing)
  with grp have 3:
    "GetGroupByID (am_Store (snd (DeleteGroups am accountID userID [G]))) accountID G = Inr g"
    by simp
  from 1 2 3 l show ?thesis by blast
qed

text \<open>The group \<open>eng\<close> of the example store, which the policy \<open>eng-to-eng\<close> names.\<close>

theorem linked_group_is_not_deleted_witness:
  "\<exists>resource name.
      fst (DeleteGroups exampleManager ''acc1'' ''admin'' [''gEng''])
        = Some (JoinError [GroupLinkError resource name])
      \<and> linkedResource (am_Store exampleManager) ''acc1'' groupEng resource name
      \<and> groups (am_Store (snd (DeleteGroups exampleManager ''acc1'' ''admin'' [''gEng''])))
          = groups (am_Store exampleManager)
      \<and> GetGroupByID (am_Store (snd (DeleteGroups exampleManager ''acc1'' ''admin'' [''gEng''])))
          ''acc1'' ''gEng'' = Inr groupEng"
proof (rule linked_group_is_not_deleted[OF example_admin])
  show "failing (am_Store exampleManager) = []"
    by (simp add: exampleManager_def exampleStore_def)
  show "GetGroupByID (am_Store exampleManager) ''acc1'' ''gEng'' = Inr groupEng"
    by (simp add: exampleManager_def exampleStore_def groupEng_def store_reads)
  show "\<not> IsGroupAll groupEng" by (simp add: IsGroupAll_def groupEng_def)
  show "Group_Issued groupEng = GroupIssuedIntegration \<longrightarrow>
          User_Role adminUser = UserRoleAdmin \<and> User_IsServiceUser adminUser"
    by (simp add: groupEng_def GroupIssuedIntegration_def)
  show "linkedResource (am_Store exampleManager) ''acc1'' groupEng ''policy'' ''eng-to-eng''"
    by (simp add: linkedResource_kind exampleManager_def exampleStore_def groupEng_def)
qed

text \<open>
  The claim as stated fails for the ALL group: the default policy of the example store
  names it, and its deletion by an admin is refused with \<open>InvalidArgument\<close>, not with a
  \<open>GroupLinkError\<close>.
\<close>

theorem linked_ALL_group_counterexample:
  "fst (isGroupLinkedToPolicy exampleStore ''acc1'' ''gAll'')
   \<and> fst (DeleteGroups exampleManager ''acc1'' ''admin'' [''gAll''])
       = Some (JoinError [Status InvalidArgument ''deleting group ALL is not allowed''])
   \<and> \<not> list_ex isGroupLinkError
          (unwrap_opt (fst (DeleteGroups exampleManager ''acc1'' ''admin'' [''gAll''])))"
proof -
  have 1: "fst (isGroupLinkedToPolicy exampleStore ''acc1'' ''gAll'')"
    by (simp add: exampleStore_def store_reads linkage_defs)
  have 2: "fst (DeleteGroups exampleManager ''acc1'' ''admin'' [''gAll''])
       = Some (JoinError [Status InvalidArgument ''deleting group ALL is not allowed''])"
    by (simp add: exampleManager_def exampleStore_def store_reads linkage_defs am_defs)
  show ?thesis unfolding 2 using 1 by simp
qed

subsection \<open>Deleting the ALL group\<close>

lemma read_errors_status:
  "GetUserByUserID s u = Inl e \<Longrightarrow> \<exists>t m. e = Status t m"
  "GetGroupByID s a g = Inl e \<Longrightarrow> \<exists>t m. e = Status t m"
  by (auto simp: store_reads storeError_def notFound_def split: if_splits option.splits)

lemma guard_error_status: "integrationGroupGuard s g u = Some e \<Longrightarrow> \<exists>t m. e = Status t m"
  unfolding integrationGroupGuard_def
  by (auto split: sum.splits if_splits dest: read_errors_status)

lemma outcome_ALL:
  assumes "find (\<lambda>g. Group_ID g = gid \<and> Group_AccountID g = a) (groups s) = Some g"
    and "IsGroupAll g"
  shows "\<exists>t m. deleteOutcome s a u gid = Some (Status t m)"
proof (cases "fails s OpGetGroupByID")
  case True
  then show ?thesis by (simp add: deleteOutcome_def GetGroupByID_def storeError_def)
next
  case False
  then have "deleteOutcome s a u gid = validateDeleteGroup s g u"
    using assms(1) by (simp add: deleteOutcome_def GetGroupByID_def)
  then show ?thesis using assms(2) guard_error_status[of s g u]
    by (cases "integrationGroupGuard s g u") (auto simp: validateDeleteGroup_def)
qed

lemma DeleteGroups_single_failed:
  assumes "deleteOutcome (am_Store am) a u gid = Some e"
  shows "(\<exists>t m. DeleteGroups am a u [gid] = (Some (Status t m), am))
       \<or> (fst (DeleteGroups am a u [gid]) = Some (JoinError [e])
          \<and> groups (am_Store (snd (DeleteGroups am a u [gid]))) = groups (am_Store am))"
  unfolding DeleteGroups_def ExecuteInTransaction_def DeleteGroups_tx_eq deleteLoop_single[OF assms]
  by (auto simp: foldl_StoreEvent_store storeError_def NewUserNotPartOfAccountError_def
        NewAdminPermissionError_def split: sum.splits dest: read_errors_status)

lemma find_filter_keep:
  "(\<And>x. x \<in> set xs \<Longrightarrow> P x \<Longrightarrow> Q x) \<Longrightarrow> find P (filter Q xs) = find P xs"
  by (induction xs) auto

lemma DeleteGroups_cases:
  "(\<exists>e. DeleteGroups am a u gids = (Some e, am))
   \<or> (fst (DeleteGroups am a u gids) = fst (deleteLoop (am_Store am) a u gids (None, [], []))
      \<and> groups (am_Store (snd (DeleteGroups am a u gids)))
          = filter (\<lambda>g. \<not> (Group_AccountID g = a
                \<and> Group_ID g \<in> set (fst (snd (deleteLoop (am_Store am) a u gids (None, [], []))))))
              (groups (am_Store am)))"
  unfolding DeleteGroups_def ExecuteInTransaction_def DeleteGroups_tx_eq
  by (auto simp: foldl_StoreEvent_store split: sum.splits)

lemma ALL_survives:
  assumes f: "find (\<lambda>h. Group_ID h = gid \<and> Group_AccountID h = a) (groups (am_Store am)) = Some g"
    and all: "IsGroupAll g"
  shows "find (\<lambda>h. Group_ID h = gid \<and> Group_AccountID h = a)
           (groups (am_Store (snd (DeleteGroups am a' u gids)))) = Some g"
proof -
  from outcome_ALL[OF f all] have o: "deleteOutcome (am_Store am) a u gid \<noteq> None" by auto
  from DeleteGroups_cases[of am a' u gids] show ?thesis
  proof
    assume "\<exists>e. DeleteGroups am a' u gids = (Some e, am)"
    then show ?thesis using f by auto
  next
    assume c: "fst (DeleteGroups am a' u gids) = fst (deleteLoop (am_Store am) a' u gids (None, [], []))
      \<and> groups (am_Store (snd (DeleteGroups am a' u gids)))
          = filter (\<lambda>g. \<not> (Group_AccountID g = a'
                \<and> Group_ID g \<in> set (fst (snd (deleteLoop (am_Store am) a' u gids (None, [], []))))))
              (groups (am_Store am))"
    have "find (\<lambda>h. Group_ID h = gid \<and> Group_AccountID h = a)
            (filter (\<lambda>g. \<not> (Group_AccountID g = a'
                \<and> Group_ID g \<in> set (fst (snd (deleteLoop (am_Store am) a' u gids (None, [], []))))))
              (groups (am_Store am)))
          = find (\<lambda>h. Group_ID h = gid \<and> Group_AccountID h = a) (groups (am_Store am))"
      by (rule find_filter_keep) (insert o, auto simp: deleteLoop_ids)
    then show ?thesis using c f by simp
  qed
qed

lemma ALL_fails:
  assumes f: "find (\<lambda>h. Group_ID h = gid \<and> Group_AccountID h = a) (groups (am_Store am)) = Some g"
    and all: "IsGroupAll g" and mem: "gid \<in> set gids"
  shows "fst (DeleteGroups am a u gids) \<noteq> None"
proof -
  from outcome_ALL[OF f all] have o: "deleteOutcome (am_Store am) a u gid \<noteq> None" by auto
  from DeleteGroups_cases[of am a u gids] show ?thesis
  proof
    assume "\<exists>e. DeleteGroups am a u gids = (Some e, am)"
    then show ?thesis by auto
  next
    assume c: "fst (DeleteGroups am a u gids) = fst (deleteLoop (am_Store am) a u gids (None, [], []))
      \<and> groups (am_Store (snd (DeleteGroups am a u gids)))
          = filter (\<lambda>g. \<not> (Group_AccountID g = a
                \<and> Group_ID g \<in> set (fst (snd (deleteLoop (am_Store am) a u gids (None, [], []))))))
              (groups (am_Store am))"
    have "fst (deleteLoop (am_Store am) a u gids (None, [], [])) \<noteq> None"
      unfolding deleteLoop_None using o mem by auto
    with c show ?thesis by simp
  qed
qed

text \<open>
  Claim C6, as amended. The ALL group can never be deleted: whatever the account, the
  requester and the list of IDs of a call of \<open>DeleteGroups\<close>, the store still resolves the
  ID of the ALL group to it afterwards, and a call whose list holds that ID returns an
  error. The error recorded for the ALL group is never a \<open>GroupLinkError\<close>: for a
  permitted requester and a store without failures, \<open>DeleteGroups\<close> applied to the ALL
  group returns the join of the \<open>InvalidArgument\<close> error "deleting group ALL is not
  allowed".
\<close>

theorem ALL_group_is_never_deleted:
  assumes "find (\<lambda>g. Group_ID g = groupID \<and> Group_AccountID g = accountID) (groups (am_Store am)) = Some g"
    and "IsGroupAll g"
  shows "find (\<lambda>g. Group_ID g = groupID \<and> Group_AccountID g = accountID)
           (groups (am_Store (snd (DeleteGroups am callAccountID userID groupIDs)))) = Some g
       \<and> (groupID \<in> set groupIDs \<longrightarrow> fst (DeleteGroups am accountID userID groupIDs) \<noteq> None)
       \<and> (\<exists>t m. deleteOutcome (am_Store am) accountID userID groupID = Some (Status t m))
       \<and> fst (DeleteGroups am accountID userID [groupID]) \<noteq> None
       \<and> \<not> list_ex isGroupLinkError (unwrap_opt (fst (DeleteGroups am accountID userID [groupID])))
       \<and> groups (am_Store (snd (DeleteGroups am accountID userID [groupID]))) = groups (am_Store am)
       \<and> (failing (am_Store am) = [] \<and>
            (\<exists>user. GetUserByUserID (am_Store am) userID = Inr user \<and> User_AccountID user = accountID
                    \<and> \<not> IsRegularUser user
                    \<and> (Group_Issued g = GroupIssuedIntegration \<longrightarrow>
                          User_Role user = UserRoleAdmin \<and> User_IsServiceUser user))
          \<longrightarrow> fst (DeleteGroups am accountID userID [groupID])
                = Some (JoinError [Status InvalidArgument ''deleting group ALL is not allowed'']))"
proof -
  let ?s = "am_Store am" and ?D = "DeleteGroups am accountID userID [groupID]"
  note s = ALL_survives[OF assms, of callAccountID userID groupIDs]
  note fl = ALL_fails[OF assms, of groupIDs userID]
  from outcome_ALL[OF assms] obtain t m
    where o: "deleteOutcome ?s accountID userID groupID = Some (Status t m)" by blast
  from DeleteGroups_single_failed[OF o]
  have 1: "fst ?D \<noteq> None" and 2: "\<not> list_ex isGroupLinkError (unwrap_opt (fst ?D))"
    and 3: "groups (am_Store (snd ?D)) = groups ?s"
    by auto
  have 4: "fst ?D = Some (JoinError [Status InvalidArgument ''deleting group ALL is not allowed''])"
    if nf: "failing ?s = []" and u: "GetUserByUserID ?s userID = Inr user"
      "User_AccountID user = accountID" "\<not> IsRegularUser user"
      "Group_Issued g = GroupIssuedIntegration \<longrightarrow>
                          User_Role user = UserRoleAdmin \<and> User_IsServiceUser user" for user
  proof -
    have f: "\<not> fails ?s op" for op by (simp add: fails_def nf)
    have "validateDeleteGroup ?s g userID
            = Some (Status InvalidArgument ''deleting group ALL is not allowed'')"
      by (simp add: validateDeleteGroup_def guard_permitted[OF u(1,4)] assms(2))
    then have o': "deleteOutcome ?s accountID userID groupID
            = Some (Status InvalidArgument ''deleting group ALL is not allowed'')"
      using assms(1) f by (simp add: deleteOutcome_def GetGroupByID_def)
    from DeleteGroups_committed(1)[OF u(1-3) f f f f, of "[groupID]", unfolded deleteLoop_single[OF o']]
    show ?thesis by simp
  qed
  from s fl o 1 2 3 4 show ?thesis by blast
qed

text \<open>
  On the example manager: deleting \<open>misc\<close> and ALL together fails and keeps ALL, deleting
  ALL alone is refused with \<open>InvalidArgument\<close> and leaves the groups as they were.
\<close>

theorem ALL_group_is_never_deleted_witness:
  "find (\<lambda>g. Group_ID g = ''gAll'' \<and> Group_AccountID g = ''acc1'') (groups (am_Store exampleManager))
     = Some groupAll
   \<and> IsGroupAll groupAll
   \<and> find (\<lambda>g. Group_ID g = ''gAll'' \<and> Group_AccountID g = ''acc1'')
        (groups (am_Store (snd (DeleteGroups exampleManager ''acc1'' ''admin'' [''gMisc'', ''gAll'']))))
       = Some groupAll
   \<and> fst (DeleteGroups exampleManager ''acc1'' ''admin'' [''gMisc'', ''gAll'']) \<noteq> None
   \<and> fst (DeleteGroups exampleManager ''acc1'' ''admin'' [''gAll''])
       = Some (JoinError [Status InvalidArgument ''deleting group ALL is not allowed''])
   \<and> groups (am_Store (snd (DeleteGroups exampleManager ''acc1'' ''admin'' [''gAll''])))
       = groups (am_Store exampleManager)"
proof -
  have h1: "find (\<lambda>g. Group_ID g = ''gAll'' \<and> Group_AccountID g = ''acc1'')
              (groups (am_Store exampleManager)) = Some groupAll"
    by (simp add: exampleManager_def exampleStore_def groupAll_def)
  have h2: "IsGroupAll groupAll" by (simp add: IsGroupAll_def groupAll_def)
  have h3: "failing (am_Store exampleManager) = []"
    by (simp add: exampleManager_def exampleStore_def)
  have h4: "Group_Issued groupAll = GroupIssuedIntegration \<longrightarrow>
              User_Role adminUser = UserRoleAdmin \<and> User_IsServiceUser adminUser"
    by (simp add: groupAll_def GroupIssuedIntegration_def)
  have h5: "''gAll'' \<in> set [''gMisc'', ''gAll'']" by simp
  note T = ALL_group_is_never_deleted[OF h1 h2, of "''acc1''" "''admin''" "[''gMisc'', ''gAll'']"]
  from T[THEN conjunct1]
  have a: "find (\<lambda>g. Group_ID g = ''gAll'' \<and> Group_AccountID g = ''acc1'')
        (groups (am_Store (snd (DeleteGroups exampleManager ''acc1'' ''admin'' [''gMisc'', ''gAll'']))))
       = Some groupAll" .
  from T[THEN conjunct2, THEN conjunct1] h5
  have b: "fst (DeleteGroups exampleManager ''acc1'' ''admin'' [''gMisc'', ''gAll'']) \<noteq> None"
    by blast
  from T[THEN conjunct2, THEN conjunct2, THEN conjunct2, THEN conjunct2, THEN conjunct2]
    h3 h4 example_admin
  have c: "groups (am_Store (snd (DeleteGroups exampleManager ''acc1'' ''admin'' [''gAll''])))
             = groups (am_Store exampleManager)
     \<and> fst (DeleteGroups exampleManager ''acc1'' ''admin'' [''gAll''])
       = Some (JoinError [Status InvalidArgument ''deleting group ALL is not allowed''])"
    by blast
  from h1 h2 a b c show ?thesis by blast
qed

text \<open>
  The claim as stated fails on the kind of the error: on the example store without
  policies nothing refers to the ALL group, and its deletion by an admin is refused with
  \<open>InvalidArgument\<close>.
\<close>

theorem ALL_group_error_kind_counterexample:
  "fst (DeleteGroups unlinkedAllManager ''acc1'' ''admin'' [''gAll''])
     = Some (JoinError [Status InvalidArgument ''deleting group ALL is not allowed''])
   \<and> \<not> list_ex isGroupLinkError
          (unwrap_opt (fst (DeleteGroups unlinkedAllManager ''acc1'' ''admin'' [''gAll''])))"
proof -
  have 2: "fst (DeleteGroups unlinkedAllManager ''acc1'' ''admin'' [''gAll''])
       = Some (JoinError [Status InvalidArgument ''deleting group ALL is not allowed''])"
    by (simp add: unlinkedAllManager_def exampleManager_def exampleStore_def store_reads
          linkage_defs am_defs)
  show ?thesis unfolding 2 by simp
qed

subsection \<open>Permission checks\<close>

lemma SaveGroups_permitted:
  assumes "GetUserByUserID (am_Store am) u = Inr user" "User_AccountID user = a"
    "\<not> IsRegularUser user"
  shows "SaveGroups xid am a u gs =
     (case ExecuteInTransaction (am_Store am) (SaveGroups_tx xid (dnsDomain am) a u gs) of
        Inl err \<Rightarrow> (Some err, am)
      | Inr ((eventsToStore, upd), s') \<Rightarrow>
          (let am1 = foldl StoreEvent (am\<lparr>am_Store := s'\<rparr>) eventsToStore
           in (None, if upd then updateAccountPeers am1 a else am1)))"
  using assms by (simp add: SaveGroups_def)

text \<open>
  Claim C7, as amended. \<open>SaveGroups\<close> and \<open>DeleteGroups\<close> resolve the requester first:
  when the account of the requester is not the target account they return
  \<open>UserNotPartOfAccount\<close>; otherwise, when the requester is a regular user, they return
  \<open>PermissionDenied\<close>. In both cases the manager and its store are left as they were,
  whatever the transaction would have done (no store operation other than the read of
  the user is consulted). \<open>GroupAddPeer\<close> and \<open>GroupDeletePeer\<close> take no requester.
\<close>

theorem permission_checks_precede_transaction:
  assumes "GetUserByUserID (am_Store am) userID = Inr user"
  shows "(User_AccountID user \<noteq> accountID \<longrightarrow>
            (\<exists>m. SaveGroups xid am accountID userID newGroups = (Some (Status UserNotPartOfAccount m), am))
          \<and> (\<exists>m. DeleteGroups am accountID userID groupIDs = (Some (Status UserNotPartOfAccount m), am)))
       \<and> (User_AccountID user = accountID \<and> IsRegularUser user \<longrightarrow>
            (\<exists>m. SaveGroups xid am accountID userID newGroups = (Some (Status PermissionDenied m), am))
          \<and> (\<exists>m. DeleteGroups am accountID userID groupIDs = (Some (Status PermissionDenied m), am)))"
  using assms
  by (simp add: SaveGroups_def DeleteGroups_def NewUserNotPartOfAccountError_def
        NewAdminPermissionError_def)

theorem permission_checks_precede_transaction_witness:
  "(\<exists>m. SaveGroups xidExample exampleManager ''acc1'' ''bob'' [groupOps]
          = (Some (Status PermissionDenied m), exampleManager))
   \<and> (\<exists>m. DeleteGroups exampleManager ''acc1'' ''bob'' [''gMisc'']
          = (Some (Status PermissionDenied m), exampleManager))
   \<and> (\<exists>m. SaveGroups xidExample exampleManager ''acc1'' ''eve'' [groupOps]
          = (Some (Status UserNotPartOfAccount m), exampleManager))
   \<and> (\<exists>m. DeleteGroups exampleManager ''acc1'' ''eve'' [''gMisc'']
          = (Some (Status UserNotPartOfAccount m), exampleManager))"
proof -
  have b: "GetUserByUserID (am_Store exampleManager) ''bob'' = Inr bobUser"
    and e: "GetUserByUserID (am_Store exampleManager) ''eve'' = Inr eveUser"
    by (simp_all add: exampleManager_def exampleStore_def bobUser_def eveUser_def store_reads)
  have bu: "User_AccountID bobUser = ''acc1'' \<and> IsRegularUser bobUser"
    by (simp add: bobUser_def IsRegularUser_def)
  have eu: "User_AccountID eveUser \<noteq> ''acc1''" by (simp add: eveUser_def)
  from permission_checks_precede_transaction[OF b, of "''acc1''" xidExample "[groupOps]" "[''gMisc'']"]
    permission_checks_precede_transaction[OF e, of "''acc1''" xidExample "[groupOps]" "[''gMisc'']"]
    bu eu
  show ?thesis by blast
qed

lemmas op_defs = SaveGroups_def SaveGroups_tx_def validateNewGroup_def prepareGroupEvents_def
  peerEvents_def difference_def quoted_def FQDN_def GroupAddPeer_def GroupDeletePeer_def
  groupPeer_def groupPeer_tx_def AddPeer_def RemovePeer_def upsertGroup_def accountSerial_def
  NewUserNotPartOfAccountError_def NewAdminPermissionError_def storeError_def notFound_def

text \<open>
  The claim as stated fails twice: \<open>GroupAddPeer\<close> has no requester to check and changes
  the group, and the regular user \<open>eve\<close> of another account is answered
  \<open>UserNotPartOfAccount\<close>, not \<open>PermissionDenied\<close>.
\<close>

theorem regular_user_counterexample:
  "fst (GroupAddPeer exampleManager ''acc1'' ''gEng'' ''p2'') = None
   \<and> GetGroupByID (am_Store (snd (GroupAddPeer exampleManager ''acc1'' ''gEng'' ''p2''))) ''acc1'' ''gEng''
       = Inr (groupEng\<lparr>Group_Peers := [''p1'', ''p2'']\<rparr>)
   \<and> IsRegularUser eveUser
   \<and> GetUserByUserID (am_Store exampleManager) ''eve'' = Inr eveUser
   \<and> SaveGroups xidExample exampleManager ''acc1'' ''eve'' [groupOps]
       = (Some (Status UserNotPartOfAccount ''user is not part of this account''), exampleManager)"
  by (simp add: exampleManager_def exampleStore_def groupEng_def eveUser_def groupOps_def
        store_reads linkage_defs am_defs op_defs)

subsection \<open>A failed transaction\<close>

lemma groupPeer_failed:
  "ExecuteInTransaction (am_Store am) (groupPeer_tx change a g p) = Inl e \<Longrightarrow>
     groupPeer change am a g p = (Some e, am)"
  by (simp add: groupPeer_def)

lemma ExecuteInTransaction_faults:
  "fails s OpBeginTransaction \<or> fails s OpCommit \<Longrightarrow> \<exists>e. ExecuteInTransaction s fn = Inl e"
  by (auto simp: ExecuteInTransaction_def split: sum.splits)

lemma SaveGroups_error_unchanged:
  "fails (am_Store am) OpBeginTransaction \<or> fails (am_Store am) OpCommit \<Longrightarrow>
     \<exists>e. SaveGroups xid am a u gs = (Some e, am)"
  using ExecuteInTransaction_faults[of "am_Store am" "SaveGroups_tx xid (dnsDomain am) a u gs"]
  by (auto simp: SaveGroups_def split: sum.splits)

lemma DeleteGroups_error_unchanged:
  "fails (am_Store am) OpBeginTransaction \<or> fails (am_Store am) OpCommit \<Longrightarrow>
     \<exists>e. DeleteGroups am a u gids = (Some e, am)"
  using ExecuteInTransaction_faults[of "am_Store am" "DeleteGroups_tx a u gids"]
  by (auto simp: DeleteGroups_def split: sum.splits)

lemma groupPeer_error_unchanged:
  "fails (am_Store am) OpBeginTransaction \<or> fails (am_Store am) OpCommit \<Longrightarrow>
     \<exists>e. groupPeer change am a g p = (Some e, am)"
  using ExecuteInTransaction_faults[of "am_Store am" "groupPeer_tx change a g p"]
  by (auto simp: groupPeer_def split: sum.splits)

text \<open>
  Claim C8. If the transaction of \<open>SaveGroups\<close>, \<open>DeleteGroups\<close>, \<open>GroupAddPeer\<close> or
  \<open>GroupDeletePeer\<close> returns an error, the operation returns that error and the
  manager is left as it was: its store, its audit log and its list of propagation calls.
  In particular this is so when the transaction cannot begin or cannot commit.
  Conversely, whenever an operation changes the manager at all, its transaction has
  committed.
\<close>

theorem failed_transaction_has_no_side_effects:
  "(GetUserByUserID (am_Store am) userID = Inr user \<and> User_AccountID user = accountID
      \<and> \<not> IsRegularUser user \<longrightarrow>
      (ExecuteInTransaction (am_Store am)
          (SaveGroups_tx xid (dnsDomain am) accountID userID newGroups) = Inl e
         \<longrightarrow> SaveGroups xid am accountID userID newGroups = (Some e, am))
      \<and> (ExecuteInTransaction (am_Store am) (DeleteGroups_tx accountID userID groupIDs) = Inl e
         \<longrightarrow> DeleteGroups am accountID userID groupIDs = (Some e, am)))
   \<and> (ExecuteInTransaction (am_Store am) (groupPeer_tx AddPeer accountID groupID peerID) = Inl e
         \<longrightarrow> GroupAddPeer am accountID groupID peerID = (Some e, am))
   \<and> (ExecuteInTransaction (am_Store am) (groupPeer_tx RemovePeer accountID groupID peerID) = Inl e
         \<longrightarrow> GroupDeletePeer am accountID groupID peerID = (Some e, am))
   \<and> (fails (am_Store am) OpBeginTransaction \<or> fails (am_Store am) OpCommit \<longrightarrow>
         (\<exists>e. SaveGroups xid am accountID userID newGroups = (Some e, am))
       \<and> (\<exists>e. DeleteGroups am accountID userID groupIDs = (Some e, am))
       \<and> (\<exists>e. GroupAddPeer am accountID groupID peerID = (Some e, am))
       \<and> (\<exists>e. GroupDeletePeer am accountID groupID peerID = (Some e, am)))
   \<and> (snd (SaveGroups xid am accountID userID newGroups) \<noteq> am \<longrightarrow>
         \<not> isl (ExecuteInTransaction (am_Store am)
                  (SaveGroups_tx xid (dnsDomain am) accountID userID newGroups)))
   \<and> (snd (DeleteGroups am accountID userID groupIDs) \<noteq> am \<longrightarrow>
         \<not> isl (ExecuteInTransaction (am_Store am) (DeleteGroups_tx accountID userID groupIDs)))
   \<and> (snd (GroupAddPeer am accountID groupID peerID) \<noteq> am \<longrightarrow>
         \<not> isl (ExecuteInTransaction (am_Store am) (groupPeer_tx AddPeer accountID groupID peerID)))
   \<and> (snd (GroupDeletePeer am accountID groupID peerID) \<noteq> am \<longrightarrow>
         \<not> isl (ExecuteInTransaction (am_Store am)
                  (groupPeer_tx RemovePeer accountID groupID peerID)))"
proof -
  have 3: "\<not> isl (ExecuteInTransaction (am_Store am)
                  (SaveGroups_tx xid (dnsDomain am) accountID userID newGroups))"
    if "snd (SaveGroups xid am accountID userID newGroups) \<noteq> am"
    using that by (auto simp: SaveGroups_def split: sum.splits if_splits)
  have 4: "\<not> isl (ExecuteInTransaction (am_Store am) (DeleteGroups_tx accountID userID groupIDs))"
    if "snd (DeleteGroups am accountID userID groupIDs) \<noteq> am"
    using that by (auto simp: DeleteGroups_def split: sum.splits if_splits)
  have 5: "\<not> isl (ExecuteInTransaction (am_Store am) (groupPeer_tx change accountID groupID peerID))"
    if "snd (groupPeer change am accountID groupID peerID) \<noteq> am" for change
    using that by (auto simp: groupPeer_def split: sum.splits)
  have 1: "SaveGroups xid am accountID userID newGroups = (Some e, am)"
    if "GetUserByUserID (am_Store am) userID = Inr user" "User_AccountID user = accountID"
       "\<not> IsRegularUser user"
       "ExecuteInTransaction (am_Store am)
          (SaveGroups_tx xid (dnsDomain am) accountID userID newGroups) = Inl e"
    using that by (simp add: SaveGroups_def)
  have 2: "DeleteGroups am accountID userID groupIDs = (Some e, am)"
    if "GetUserByUserID (am_Store am) userID = Inr user" "User_AccountID user = accountID"
       "\<not> IsRegularUser user"
       "ExecuteInTransaction (am_Store am) (DeleteGroups_tx accountID userID groupIDs) = Inl e"
    using that by (simp add: DeleteGroups_def)
  show ?thesis
    using 1 2 3 4 5 groupPeer_failed[of am _ accountID groupID peerID e]
      SaveGroups_error_unchanged[of am xid accountID userID newGroups]
      DeleteGroups_error_unchanged[of am accountID userID groupIDs]
      groupPeer_error_unchanged[of am _ accountID groupID peerID]
    unfolding GroupAddPeer_def GroupDeletePeer_def by blast
qed

text \<open>
  With a failing commit the four operations return the store error and change nothing;
  on the example manager \<open>GroupAddPeer\<close> changes the state, and its transaction commits.
\<close>

theorem failed_transaction_has_no_side_effects_witness:
  "fails (am_Store failingCommitManager) OpCommit
   \<and> SaveGroups xidExample failingCommitManager ''acc1'' ''admin'' [groupOps]
       = (Some storeError, failingCommitManager)
   \<and> DeleteGroups failingCommitManager ''acc1'' ''admin'' [''gMisc'']
       = (Some storeError, failingCommitManager)
   \<and> GroupAddPeer failingCommitManager ''acc1'' ''gEng'' ''p2''
       = (Some storeError, failingCommitManager)
   \<and> GroupDeletePeer failingCommitManager ''acc1'' ''gEng'' ''p1''
       = (Some storeError, failingCommitManager)
   \<and> snd (GroupAddPeer exampleManager ''acc1'' ''gEng'' ''p2'') \<noteq> exampleManager
   \<and> \<not> isl (ExecuteInTransaction (am_Store exampleManager)
              (groupPeer_tx AddPeer ''acc1'' ''gEng'' ''p2''))"
proof -
  have n: "snd (GroupAddPeer exampleManager ''acc1'' ''gEng'' ''p2'') \<noteq> exampleManager"
    by (simp add: exampleManager_def exampleStore_def store_reads linkage_defs am_defs op_defs)
  have c: "fails (am_Store failingCommitManager) OpCommit"
    by (simp add: failingCommitManager_def exampleManager_def fails_def)
  have u: "GetUserByUserID (am_Store failingCommitManager) ''admin'' = Inr adminUser
           \<and> User_AccountID adminUser = ''acc1'' \<and> \<not> IsRegularUser adminUser"
    by (simp add: failingCommitManager_def exampleManager_def exampleStore_def adminUser_def
          store_reads IsRegularUser_def)
  have t1: "ExecuteInTransaction (am_Store failingCommitManager)
             (SaveGroups_tx xidExample (dnsDomain failingCommitManager) ''acc1'' ''admin'' [groupOps])
             = Inl storeError"
    by (simp add: failingCommitManager_def exampleManager_def exampleStore_def groupOps_def
          xidExample_def store_reads linkage_defs am_defs op_defs)
  have t2: "ExecuteInTransaction (am_Store failingCommitManager)
             (DeleteGroups_tx ''acc1'' ''admin'' [''gMisc'']) = Inl storeError"
    by (simp add: failingCommitManager_def exampleManager_def exampleStore_def
          store_reads linkage_defs am_defs op_defs)
  have t3: "ExecuteInTransaction (am_Store failingCommitManager)
             (groupPeer_tx AddPeer ''acc1'' ''gEng'' ''p2'') = Inl storeError"
    by (simp add: failingCommitManager_def exampleManager_def exampleStore_def
          store_reads linkage_defs am_defs op_defs)
  have t4: "ExecuteInTransaction (am_Store failingCommitManager)
             (groupPeer_tx RemovePeer ''acc1'' ''gEng'' ''p1'') = Inl storeError"
    by (simp add: failingCommitManager_def exampleManager_def exampleStore_def
          store_reads linkage_defs am_defs op_defs)
  note T = failed_transaction_has_no_side_effects
         [where am = failingCommitManager and userID = "''admin''" and user = adminUser
            and accountID = "''acc1''" and xid = xidExample and newGroups = "[groupOps]"
            and e = storeError and groupIDs = "[''gMisc'']" and groupID = "''gEng''"]
  note E = failed_transaction_has_no_side_effects
         [where am = exampleManager and accountID = "''acc1''" and groupID = "''gEng''"
            and peerID = "''p2''"]
  from T[THEN conjunct1] u t1 t2
  have a: "SaveGroups xidExample failingCommitManager ''acc1'' ''admin'' [groupOps]
             = (Some storeError, failingCommitManager)
           \<and> DeleteGroups failingCommitManager ''acc1'' ''admin'' [''gMisc'']
             = (Some storeError, failingCommitManager)"
    by simp
  from T[where peerID = "''p2''", THEN conjunct2, THEN conjunct1] t3
  have b: "GroupAddPeer failingCommitManager ''acc1'' ''gEng'' ''p2''
             = (Some storeError, failingCommitManager)"
    by simp
  from T[where peerID = "''p1''", THEN conjunct2, THEN conjunct2, THEN conjunct1] t4
  have d: "GroupDeletePeer failingCommitManager ''acc1'' ''gEng'' ''p1''
             = (Some storeError, failingCommitManager)"
    by simp
  from E[THEN conjunct2, THEN conjunct2, THEN conjunct2, THEN conjunct2, THEN conjunct2,
         THEN conjunct2, THEN conjunct1] n
  have g: "\<not> isl (ExecuteInTransaction (am_Store exampleManager)
              (groupPeer_tx AddPeer ''acc1'' ''gEng'' ''p2''))"
    by simp
  from a b d g c n show ?thesis by simp
qed

subsection \<open>The network serial of a committed mutation\<close>

lemma find_bumped:
  "find (\<lambda>x. Account_Id x = a)
        (map (\<lambda>x. if Account_Id x = a then x\<lparr>Network_Serial := Network_Serial x + 1\<rparr> else x) xs)
     = map_option (\<lambda>x. x\<lparr>Network_Serial := Network_Serial x + 1\<rparr>) (find (\<lambda>x. Account_Id x = a) xs)"
  by (induction xs) auto

lemma serial_bumped:
  assumes "accounts t = map (\<lambda>x. if Account_Id x = a
                                   then x\<lparr>Network_Serial := Network_Serial x + 1\<rparr> else x) (accounts s)"
  shows "accountSerial t a = map_option Suc (accountSerial s a)"
  by (simp add: accountSerial_def assms find_bumped option.map_comp o_def)

lemma SaveGroups_tx_Inr:
  assumes "SaveGroups_tx xid dm a u gs s = Inr ((evs, upd), s')"
  shows "\<exists>n toSave ids.
           saveLoop s xid dm a u gs (0, [], [], []) = Inr (n, toSave, ids, evs)
           \<and> areGroupChangesAffectPeers s a ids = (upd, None)
           \<and> accounts s' = map (\<lambda>x. if Account_Id x = a
                                   then x\<lparr>Network_Serial := Network_Serial x + 1\<rparr> else x) (accounts s)"
  using assms
  by (auto simp: SaveGroups_tx_def IncrementNetworkSerial_def Store_SaveGroups_def
           split: sum.splits prod.splits option.splits if_splits)

lemma groupPeer_tx_Inr:
  assumes "groupPeer_tx change a gid p s = Inr (upd, s')"
    and "GetGroupByID s a gid = Inr g" "fst (change g p)"
  shows "areGroupChangesAffectPeers s a [gid] = (upd, None)
         \<and> accounts s' = map (\<lambda>x. if Account_Id x = a
                                   then x\<lparr>Network_Serial := Network_Serial x + 1\<rparr> else x) (accounts s)
         \<and> groups s' = upsertGroup (snd (change g p)) (groups s)"
  using assms
  by (cases "change g p")
     (auto simp: groupPeer_tx_def IncrementNetworkSerial_def Store_SaveGroup_def
           split: sum.splits prod.splits option.splits if_splits bool.splits)

lemma ExecuteInTransaction_Inr:
  "ExecuteInTransaction s fn = Inr r \<Longrightarrow> fn s = Inr r"
  by (auto simp: ExecuteInTransaction_def split: if_splits sum.splits)

lemma not_isl_Inr: "\<not> isl x \<Longrightarrow> \<exists>r. x = Inr r"
  by (cases x) auto


lemma SaveGroups_committed:
  assumes "GetUserByUserID (am_Store am) u = Inr user" "User_AccountID user = a"
    "\<not> IsRegularUser user"
    and "\<not> isl (ExecuteInTransaction (am_Store am) (SaveGroups_tx xid (dnsDomain am) a u gs))"
  shows "accountSerial (am_Store (snd (SaveGroups xid am a u gs))) a
           = map_option Suc (accountSerial (am_Store am) a)"
    and "peerUpdates (snd (SaveGroups xid am a u gs))
           = peerUpdates am @
             (if fst (areGroupChangesAffectPeers (am_Store am) a
                        (touchedGroupIDs (am_Store am) xid (dnsDomain am) a u gs))
              then [a] else [])"
    and "fst (SaveGroups xid am a u gs) = None"
proof -
  from not_isl_Inr[OF assms(4)] obtain evs upd s'
    where e: "ExecuteInTransaction (am_Store am) (SaveGroups_tx xid (dnsDomain am) a u gs)
                = Inr ((evs, upd), s')"
    by (metis surj_pair)
  from SaveGroups_tx_Inr[OF ExecuteInTransaction_Inr[OF e]] obtain n toSave ids
    where l: "saveLoop (am_Store am) xid (dnsDomain am) a u gs (0, [], [], []) = Inr (n, toSave, ids, evs)"
      and i: "areGroupChangesAffectPeers (am_Store am) a ids = (upd, None)"
      and acc: "accounts s' = map (\<lambda>x. if Account_Id x = a
                                   then x\<lparr>Network_Serial := Network_Serial x + 1\<rparr> else x)
                                (accounts (am_Store am))"
    by blast
  have t: "touchedGroupIDs (am_Store am) xid (dnsDomain am) a u gs = ids"
    by (simp add: touchedGroupIDs_def l)
  have r: "SaveGroups xid am a u gs =
             (None, if upd then updateAccountPeers (foldl StoreEvent (am\<lparr>am_Store := s'\<rparr>) evs) a
                    else foldl StoreEvent (am\<lparr>am_Store := s'\<rparr>) evs)"
    by (simp add: SaveGroups_permitted[OF assms(1-3)] e)
  show "accountSerial (am_Store (snd (SaveGroups xid am a u gs))) a
           = map_option Suc (accountSerial (am_Store am) a)"
    by (simp add: r updateAccountPeers_def foldl_StoreEvent_store serial_bumped[OF acc])
  show "peerUpdates (snd (SaveGroups xid am a u gs))
           = peerUpdates am @
             (if fst (areGroupChangesAffectPeers (am_Store am) a
                        (touchedGroupIDs (am_Store am) xid (dnsDomain am) a u gs))
              then [a] else [])"
    by (simp add: r t i updateAccountPeers_def foldl_StoreEvent_updates)
  show "fst (SaveGroups xid am a u gs) = None" by (simp add: r)
qed

lemma DeleteGroups_tx_Inr:
  assumes "DeleteGroups_tx a u gids s = Inr (out, s')"
  shows "accounts s' = map (\<lambda>x. if Account_Id x = a
                                   then x\<lparr>Network_Serial := Network_Serial x + 1\<rparr> else x) (accounts s)"
  using assms unfolding DeleteGroups_tx_eq by (auto split: if_splits)

lemma DeleteGroups_committed_serial:
  assumes "GetUserByUserID (am_Store am) u = Inr user" "User_AccountID user = a"
    "\<not> IsRegularUser user"
    and "\<not> isl (ExecuteInTransaction (am_Store am) (DeleteGroups_tx a u gids))"
  shows "accountSerial (am_Store (snd (DeleteGroups am a u gids))) a
           = map_option Suc (accountSerial (am_Store am) a)"
    and "peerUpdates (snd (DeleteGroups am a u gids)) = peerUpdates am"
proof -
  from not_isl_Inr[OF assms(4)] obtain errs dels s'
    where e: "ExecuteInTransaction (am_Store am) (DeleteGroups_tx a u gids) = Inr ((errs, dels), s')"
    by (metis surj_pair)
  note acc = DeleteGroups_tx_Inr[OF ExecuteInTransaction_Inr[OF e]]
  have r: "DeleteGroups am a u gids =
             (errs, foldl StoreEvent (am\<lparr>am_Store := s'\<rparr>) (map (groupDeletedEvent a u) dels))"
    by (simp add: DeleteGroups_permitted[OF assms(1-3)] e)
  show "accountSerial (am_Store (snd (DeleteGroups am a u gids))) a
           = map_option Suc (accountSerial (am_Store am) a)"
    by (simp add: r foldl_StoreEvent_store serial_bumped[OF acc])
  show "peerUpdates (snd (DeleteGroups am a u gids)) = peerUpdates am"
    by (simp add: r foldl_StoreEvent_updates)
qed

lemma groupPeer_committed:
  assumes "GetGroupByID (am_Store am) a gid = Inr g" "fst (change g p)"
    and "\<not> isl (ExecuteInTransaction (am_Store am) (groupPeer_tx change a gid p))"
  shows "accountSerial (am_Store (snd (groupPeer change am a gid p))) a
           = map_option Suc (accountSerial (am_Store am) a)"
    and "peerUpdates (snd (groupPeer change am a gid p))
           = peerUpdates am @
             (if fst (areGroupChangesAffectPeers (am_Store am) a [gid]) then [a] else [])"
    and "groups (am_Store (snd (groupPeer change am a gid p)))
           = upsertGroup (snd (change g p)) (groups (am_Store am))"
    and "fst (groupPeer change am a gid p) = None"
proof -
  from not_isl_Inr[OF assms(3)] obtain upd s'
    where e: "ExecuteInTransaction (am_Store am) (groupPeer_tx change a gid p) = Inr (upd, s')"
    by (metis surj_pair)
  from groupPeer_tx_Inr[OF ExecuteInTransaction_Inr[OF e] assms(1,2)]
  have i: "areGroupChangesAffectPeers (am_Store am) a [gid] = (upd, None)"
    and acc: "accounts s' = map (\<lambda>x. if Account_Id x = a
                                   then x\<lparr>Network_Serial := Network_Serial x + 1\<rparr> else x)
                                (accounts (am_Store am))"
    and g: "groups s' = upsertGroup (snd (change g p)) (groups (am_Store am))"
    by auto
  have r: "groupPeer change am a gid p =
             (None, if upd then updateAccountPeers (am\<lparr>am_Store := s'\<rparr>) a else am\<lparr>am_Store := s'\<rparr>)"
    by (simp add: groupPeer_def e)
  show "accountSerial (am_Store (snd (groupPeer change am a gid p))) a
           = map_option Suc (accountSerial (am_Store am) a)"
    by (simp add: r updateAccountPeers_def serial_bumped[OF acc])
  show "peerUpdates (snd (groupPeer change am a gid p))
           = peerUpdates am @
             (if fst (areGroupChangesAffectPeers (am_Store am) a [gid]) then [a] else [])"
    by (simp add: r i updateAccountPeers_def)
  show "groups (am_Store (snd (groupPeer change am a gid p)))
           = upsertGroup (snd (change g p)) (groups (am_Store am))"
    by (simp add: r g updateAccountPeers_def)
  show "fst (groupPeer change am a gid p) = None" by (simp add: r)
qed

text \<open>
  Claim C1, as amended. Whenever the transaction of a mutating group operation commits
  (\<open>SaveGroups\<close>, \<open>DeleteGroups\<close>, and \<open>GroupAddPeer\<close> or \<open>GroupDeletePeer\<close> with an
  actual change of the member list), the network serial of the account is one more than
  before, whatever the impact predicate answers. The impact predicate over the touched
  group IDs decides only the propagation: \<open>SaveGroups\<close>, \<open>GroupAddPeer\<close> and
  \<open>GroupDeletePeer\<close> call \<open>updateAccountPeers\<close> once if it is true and not at all if it is
  false; \<open>DeleteGroups\<close> never calls it.
\<close>

theorem committed_mutation_always_bumps_serial:
  "(GetUserByUserID (am_Store am) userID = Inr user \<and> User_AccountID user = accountID
      \<and> \<not> IsRegularUser user \<longrightarrow>
      (\<not> isl (ExecuteInTransaction (am_Store am)
                 (SaveGroups_tx xid (dnsDomain am) accountID userID newGroups)) \<longrightarrow>
         accountSerial (am_Store (snd (SaveGroups xid am accountID userID newGroups))) accountID
           = map_option Suc (accountSerial (am_Store am) accountID)
         \<and> peerUpdates (snd (SaveGroups xid am accountID userID newGroups))
           = peerUpdates am @
             (if fst (areGroupChangesAffectPeers (am_Store am) accountID
                        (touchedGroupIDs (am_Store am) xid (dnsDomain am) accountID userID newGroups))
              then [accountID] else []))
      \<and> (\<not> isl (ExecuteInTransaction (am_Store am) (DeleteGroups_tx accountID userID groupIDs)) \<longrightarrow>
         accountSerial (am_Store (snd (DeleteGroups am accountID userID groupIDs))) accountID
           = map_option Suc (accountSerial (am_Store am) accountID)
         \<and> peerUpdates (snd (DeleteGroups am accountID userID groupIDs)) = peerUpdates am))
   \<and> (GetGroupByID (am_Store am) accountID groupID = Inr g \<longrightarrow>
      (peerID \<notin> set (Group_Peers g)
       \<and> \<not> isl (ExecuteInTransaction (am_Store am) (groupPeer_tx AddPeer accountID groupID peerID))
       \<longrightarrow>
         accountSerial (am_Store (snd (GroupAddPeer am accountID groupID peerID))) accountID
           = map_option Suc (accountSerial (am_Store am) accountID)
         \<and> peerUpdates (snd (GroupAddPeer am accountID groupID peerID))
           = peerUpdates am @
             (if fst (areGroupChangesAffectPeers (am_Store am) accountID [groupID])
              then [accountID] else []))
      \<and> (peerID \<in> set (Group_Peers g)
       \<and> \<not> isl (ExecuteInTransaction (am_Store am) (groupPeer_tx RemovePeer accountID groupID peerID))
       \<longrightarrow>
         accountSerial (am_Store (snd (GroupDeletePeer am accountID groupID peerID))) accountID
           = map_option Suc (accountSerial (am_Store am) accountID)
         \<and> peerUpdates (snd (GroupDeletePeer am accountID groupID peerID))
           = peerUpdates am @
             (if fst (areGroupChangesAffectPeers (am_Store am) accountID [groupID])
              then [accountID] else [])))"
proof -
  have add: "fst (AddPeer g peerID)" if "peerID \<notin> set (Group_Peers g)"
    using that by (simp add: AddPeer_def)
  have del: "fst (RemovePeer g peerID)" if "peerID \<in> set (Group_Peers g)"
    using that by (simp add: RemovePeer_def)
  note A = groupPeer_committed(1,2)[where change = AddPeer and am = am and a = accountID
             and gid = groupID and p = peerID and g = g, folded GroupAddPeer_def]
  note B = groupPeer_committed(1,2)[where change = RemovePeer and am = am and a = accountID
             and gid = groupID and p = peerID and g = g, folded GroupDeletePeer_def]
  show ?thesis
    by (intro conjI impI; (elim conjE)?;
        (rule SaveGroups_committed(1,2) DeleteGroups_committed_serial A B);
        (assumption | rule add del)?; assumption?)
qed

text \<open>
  The claim as stated fails: renaming the group \<open>misc\<close>, which nothing refers to, has no
  impact and triggers no propagation, yet the serial of the account goes from 7 to 8.
\<close>

theorem unlinked_group_serial_counterexample:
  "areGroupChangesAffectPeers (am_Store exampleManager) ''acc1'' [''gMisc''] = (False, None)
   \<and> fst (SaveGroups xidExample exampleManager ''acc1'' ''admin''
             [groupMisc\<lparr>Group_Name := ''other''\<rparr>]) = None
   \<and> accountSerial (am_Store exampleManager) ''acc1'' = Some 7
   \<and> accountSerial (am_Store (snd (SaveGroups xidExample exampleManager ''acc1'' ''admin''
                                    [groupMisc\<lparr>Group_Name := ''other''\<rparr>]))) ''acc1'' = Some 8
   \<and> peerUpdates (snd (SaveGroups xidExample exampleManager ''acc1'' ''admin''
                                    [groupMisc\<lparr>Group_Name := ''other''\<rparr>])) = []"
  by (simp add: exampleManager_def exampleStore_def groupMisc_def
        store_reads linkage_defs am_defs op_defs)


lemmas example_defs = exampleManager_def exampleStore_def groupOps_def groupMisc_def groupEng_def
  groupAll_def adminUser_def xidExample_def

text \<open>
  On the example manager: saving a new group and deleting \<open>misc\<close> (no impact), adding
  \<open>p2\<close> to and removing \<open>p1\<close> from \<open>eng\<close> (impact) each take the serial from 7 to 8.
\<close>

theorem committed_mutation_always_bumps_serial_witness:
  "accountSerial (am_Store exampleManager) ''acc1'' = Some 7
   \<and> accountSerial (am_Store (snd (SaveGroups xidExample exampleManager ''acc1'' ''admin'' [groupOps])))
       ''acc1'' = Some 8
   \<and> peerUpdates (snd (SaveGroups xidExample exampleManager ''acc1'' ''admin'' [groupOps])) = []
   \<and> accountSerial (am_Store (snd (DeleteGroups exampleManager ''acc1'' ''admin'' [''gMisc''])))
       ''acc1'' = Some 8
   \<and> peerUpdates (snd (DeleteGroups exampleManager ''acc1'' ''admin'' [''gMisc''])) = []
   \<and> accountSerial (am_Store (snd (GroupAddPeer exampleManager ''acc1'' ''gEng'' ''p2'')))
       ''acc1'' = Some 8
   \<and> peerUpdates (snd (GroupAddPeer exampleManager ''acc1'' ''gEng'' ''p2'')) = [''acc1'']
   \<and> accountSerial (am_Store (snd (GroupDeletePeer exampleManager ''acc1'' ''gEng'' ''p1'')))
       ''acc1'' = Some 8
   \<and> peerUpdates (snd (GroupDeletePeer exampleManager ''acc1'' ''gEng'' ''p1'')) = [''acc1'']"
proof -
  have u: "GetUserByUserID (am_Store exampleManager) ''admin'' = Inr adminUser
           \<and> User_AccountID adminUser = ''acc1'' \<and> \<not> IsRegularUser adminUser"
    using example_admin by simp
  have g: "GetGroupByID (am_Store exampleManager) ''acc1'' ''gEng'' = Inr groupEng"
    by (simp add: example_defs store_reads)
  have p: "''p2'' \<notin> set (Group_Peers groupEng)" "''p1'' \<in> set (Group_Peers groupEng)"
    by (simp_all add: groupEng_def)
  have s0: "accountSerial (am_Store exampleManager) ''acc1'' = Some 7"
    and pu: "peerUpdates exampleManager = []"
    by (simp_all add: example_defs accountSerial_def)
  have t1: "\<not> isl (ExecuteInTransaction (am_Store exampleManager)
                    (SaveGroups_tx xidExample (dnsDomain exampleManager) ''acc1'' ''admin'' [groupOps]))"
    by (simp add: example_defs store_reads linkage_defs am_defs op_defs)
  have t2: "\<not> isl (ExecuteInTransaction (am_Store exampleManager)
                    (DeleteGroups_tx ''acc1'' ''admin'' [''gMisc'']))"
    by (simp add: example_defs store_reads linkage_defs am_defs op_defs)
  have t3: "\<not> isl (ExecuteInTransaction (am_Store exampleManager)
                    (groupPeer_tx AddPeer ''acc1'' ''gEng'' ''p2''))"
    by (simp add: example_defs store_reads linkage_defs am_defs op_defs)
  have t4: "\<not> isl (ExecuteInTransaction (am_Store exampleManager)
                    (groupPeer_tx RemovePeer ''acc1'' ''gEng'' ''p1''))"
    by (simp add: example_defs store_reads linkage_defs am_defs op_defs)
  have i1: "\<not> fst (areGroupChangesAffectPeers (am_Store exampleManager) ''acc1''
                 (touchedGroupIDs (am_Store exampleManager) xidExample (dnsDomain exampleManager)
                    ''acc1'' ''admin'' [groupOps]))"
    by (simp add: touchedGroupIDs_def example_defs store_reads linkage_defs am_defs op_defs)
  have i2: "fst (areGroupChangesAffectPeers (am_Store exampleManager) ''acc1'' [''gEng''])"
    by (simp add: example_defs store_reads linkage_defs)
  note T = committed_mutation_always_bumps_serial
         [where am = exampleManager and userID = "''admin''" and user = adminUser
            and accountID = "''acc1''" and xid = xidExample and newGroups = "[groupOps]"
            and groupIDs = "[''gMisc'']" and groupID = "''gEng''" and g = groupEng]
  from T[THEN conjunct1] u t1 t2 s0 pu i1
  have a: "accountSerial (am_Store (snd (SaveGroups xidExample exampleManager ''acc1'' ''admin''
                                          [groupOps]))) ''acc1'' = Some 8
     \<and> peerUpdates (snd (SaveGroups xidExample exampleManager ''acc1'' ''admin'' [groupOps])) = []
     \<and> accountSerial (am_Store (snd (DeleteGroups exampleManager ''acc1'' ''admin'' [''gMisc''])))
         ''acc1'' = Some 8
     \<and> peerUpdates (snd (DeleteGroups exampleManager ''acc1'' ''admin'' [''gMisc''])) = []"
    by simp
  from T[where peerID = "''p2''", THEN conjunct2] g p t3 s0 pu i2
  have b: "accountSerial (am_Store (snd (GroupAddPeer exampleManager ''acc1'' ''gEng'' ''p2'')))
             ''acc1'' = Some 8
     \<and> peerUpdates (snd (GroupAddPeer exampleManager ''acc1'' ''gEng'' ''p2'')) = [''acc1'']"
    by simp
  from T[where peerID = "''p1''", THEN conjunct2] g p t4 s0 pu i2
  have c: "accountSerial (am_Store (snd (GroupDeletePeer exampleManager ''acc1'' ''gEng'' ''p1'')))
             ''acc1'' = Some 8
     \<and> peerUpdates (snd (GroupDeletePeer exampleManager ''acc1'' ''gEng'' ''p1'')) = [''acc1'']"
    by simp
  from a b c s0 show ?thesis by simp
qed

subsection \<open>Adding a member twice\<close>

lemma find_upsert:
  assumes "list_ex (\<lambda>h. Group_ID h = Group_ID g) gs"
  shows "find (\<lambda>h. Group_ID h = Group_ID g \<and> Group_AccountID h = Group_AccountID g)
              (map (\<lambda>h. if Group_ID h = Group_ID g then g else h) gs) = Some g"
  using assms by (induction gs) auto

lemma GetGroupByID_upsert:
  assumes "GetGroupByID s (Group_AccountID g') (Group_ID g') = Inr g"
    and "groups t = upsertGroup g' (groups s)" "failing t = failing s"
  shows "GetGroupByID t (Group_AccountID g') (Group_ID g') = Inr g'"
proof -
  from GetGroupByID_Inr[OF assms(1)] have "g \<in> set (groups s)" "Group_ID g = Group_ID g'" by auto
  then have ex: "list_ex (\<lambda>h. Group_ID h = Group_ID g') (groups s)"
    by (auto simp: list_ex_iff)
  have nf: "\<not> fails s OpGetGroupByID"
    using assms(1) by (auto simp: GetGroupByID_def split: if_splits)
  show ?thesis
    using nf by (simp add: GetGroupByID_def fails_def assms(2,3) upsertGroup_def ex find_upsert[OF ex])
qed

lemma groupPeer_failing:
  "failing (am_Store (snd (groupPeer change am a gid p))) = failing (am_Store am)"
  by (auto simp: groupPeer_def ExecuteInTransaction_def groupPeer_tx_def updateAccountPeers_def
        IncrementNetworkSerial_def Store_SaveGroup_def
        split: sum.splits prod.splits option.splits if_splits bool.splits)

lemma groupPeer_noop:
  assumes "find (\<lambda>h. Group_ID h = gid \<and> Group_AccountID h = a) (groups (am_Store am)) = Some g"
    and "\<not> fst (change g p)"
  shows "snd (groupPeer change am a gid p) = am"
    and "\<not> fails (am_Store am) OpBeginTransaction \<Longrightarrow> \<not> fails (am_Store am) OpGetGroupByID \<Longrightarrow>
         \<not> fails (am_Store am) OpCommit \<Longrightarrow> fst (groupPeer change am a gid p) = None"
  using assms
  by (cases "change g p";
      simp add: groupPeer_def ExecuteInTransaction_def groupPeer_tx_def GetGroupByID_def)+

lemma groupPeer_success_faults:
  assumes "fst (groupPeer change am a gid p) = None"
  shows "\<not> fails (am_Store am) OpBeginTransaction" "\<not> fails (am_Store am) OpCommit"
    "\<not> fails (am_Store am) OpGetGroupByID"
    "\<not> isl (ExecuteInTransaction (am_Store am) (groupPeer_tx change a gid p))"
    "\<exists>g. GetGroupByID (am_Store am) a gid = Inr g"
  using assms
  by (auto simp: groupPeer_def ExecuteInTransaction_def groupPeer_tx_def GetGroupByID_def
        split: sum.splits if_splits option.splits)


lemma GetGroupByID_find:
  "GetGroupByID s a gid = Inr g \<Longrightarrow>
     find (\<lambda>h. Group_ID h = gid \<and> Group_AccountID h = a) (groups s) = Some g"
  by (auto simp: GetGroupByID_def split: if_splits option.splits)

lemma AddPeer_present: "p \<in> set (Group_Peers g) \<Longrightarrow> \<not> fst (AddPeer g p)"
  by (simp add: AddPeer_def)

lemma RemovePeer_absent: "p \<notin> set (Group_Peers g) \<Longrightarrow> \<not> fst (RemovePeer g p)"
  by (simp add: RemovePeer_def)

lemma AddPeer_absent:
  "p \<notin> set (Group_Peers g) \<Longrightarrow> AddPeer g p = (True, g\<lparr>Group_Peers := Group_Peers g @ [p]\<rparr>)"
  by (simp add: AddPeer_def)

lemmas addPeer_noop = groupPeer_noop[where change = AddPeer]

lemmas removePeer_noop = groupPeer_noop[where change = RemovePeer]

lemmas addPeer_committed = groupPeer_committed[where change = AddPeer]

lemma addPeer_first:
  assumes ok: "fst (groupPeer AddPeer am a gid p) = None"
    and g: "GetGroupByID (am_Store am) a gid = Inr g"
    and absent: "p \<notin> set (Group_Peers g)"
  shows "accountSerial (am_Store (snd (groupPeer AddPeer am a gid p))) a
           = map_option Suc (accountSerial (am_Store am) a)"
    and "GetGroupByID (am_Store (snd (groupPeer AddPeer am a gid p))) a gid
           = Inr (g\<lparr>Group_Peers := Group_Peers g @ [p]\<rparr>)"
proof -
  let ?g' = "g\<lparr>Group_Peers := Group_Peers g @ [p]\<rparr>"
  have ch: "fst (AddPeer g p)" "snd (AddPeer g p) = ?g'" by (simp_all add: AddPeer_absent[OF absent])
  note c = addPeer_committed[OF g ch(1) groupPeer_success_faults(4)[OF ok]]
  show "accountSerial (am_Store (snd (groupPeer AddPeer am a gid p))) a
           = map_option Suc (accountSerial (am_Store am) a)"
    by (rule c(1))
  from GetGroupByID_Inr[OF g] have id: "Group_ID ?g' = gid" "Group_AccountID ?g' = a" by auto
  have "GetGroupByID (am_Store (snd (groupPeer AddPeer am a gid p)))
          (Group_AccountID ?g') (Group_ID ?g') = Inr ?g'"
  proof (rule GetGroupByID_upsert[where s = "am_Store am" and g = g])
    show "GetGroupByID (am_Store am) (Group_AccountID ?g') (Group_ID ?g') = Inr g"
      using g id by simp
    show "groups (am_Store (snd (groupPeer AddPeer am a gid p))) = upsertGroup ?g' (groups (am_Store am))"
      using c(3) ch(2) by simp
    show "failing (am_Store (snd (groupPeer AddPeer am a gid p))) = failing (am_Store am)"
      by (rule groupPeer_failing)
  qed
  then show "GetGroupByID (am_Store (snd (groupPeer AddPeer am a gid p))) a gid = Inr ?g'"
    using id by simp
qed

lemma addPeer_twice:
  assumes ok: "fst (groupPeer AddPeer am a gid p) = None"
  shows "groupPeer AddPeer (snd (groupPeer AddPeer am a gid p)) a gid p
           = (None, snd (groupPeer AddPeer am a gid p))"
proof -
  let ?am2 = "snd (groupPeer AddPeer am a gid p)"
  note f = groupPeer_success_faults(1-3)[OF ok]
  from groupPeer_success_faults(5)[OF ok] obtain g
    where g: "GetGroupByID (am_Store am) a gid = Inr g" by blast
  have f2: "\<not> fails (am_Store ?am2) OpBeginTransaction" "\<not> fails (am_Store ?am2) OpGetGroupByID"
    "\<not> fails (am_Store ?am2) OpCommit"
    using f by (simp_all add: fails_def groupPeer_failing)
  have "\<exists>g2. find (\<lambda>h. Group_ID h = gid \<and> Group_AccountID h = a) (groups (am_Store ?am2)) = Some g2
              \<and> p \<in> set (Group_Peers g2)"
  proof (cases "p \<in> set (Group_Peers g)")
    case True
    from addPeer_noop(1)[OF GetGroupByID_find[OF g] AddPeer_present[OF True]]
    have "?am2 = am" .
    with GetGroupByID_find[OF g] True show ?thesis by auto
  next
    case False
    from GetGroupByID_find[OF addPeer_first(2)[OF ok g False]]
    show ?thesis by auto
  qed
  then obtain g2
    where g2: "find (\<lambda>h. Group_ID h = gid \<and> Group_AccountID h = a) (groups (am_Store ?am2)) = Some g2"
      and p2: "p \<in> set (Group_Peers g2)" by blast
  note n = addPeer_noop[OF g2 AddPeer_present[OF p2]]
  show ?thesis using n(1) n(2)[OF f2] by (simp add: prod_eq_iff)
qed

text \<open>
  Claim C4. \<open>GroupAddPeer\<close> with a peer that is already a member, and \<open>GroupDeletePeer\<close>
  with a peer that is not, leave the manager exactly as it was: the member list, the
  serial, the audit log and the propagation calls. Hence a second \<open>GroupAddPeer\<close> with
  the same group and peer, after a first one that returned nil, returns nil and changes
  nothing: the two calls together change the member list once and raise the serial by
  one when the peer was absent before, and change nothing when it was present.
\<close>

theorem peer_membership_change_is_idempotent:
  "(find (\<lambda>h. Group_ID h = groupID \<and> Group_AccountID h = accountID) (groups (am_Store am)) = Some g
      \<longrightarrow>
      (peerID \<in> set (Group_Peers g) \<longrightarrow> snd (GroupAddPeer am accountID groupID peerID) = am)
    \<and> (peerID \<notin> set (Group_Peers g) \<longrightarrow> snd (GroupDeletePeer am accountID groupID peerID) = am))
   \<and> (fst (GroupAddPeer am accountID groupID peerID) = None \<longrightarrow>
        GroupAddPeer (snd (GroupAddPeer am accountID groupID peerID)) accountID groupID peerID
          = (None, snd (GroupAddPeer am accountID groupID peerID)))
   \<and> (fst (GroupAddPeer am accountID groupID peerID) = None
       \<and> GetGroupByID (am_Store am) accountID groupID = Inr g \<and> peerID \<notin> set (Group_Peers g) \<longrightarrow>
        accountSerial (am_Store (snd (GroupAddPeer am accountID groupID peerID))) accountID
          = map_option Suc (accountSerial (am_Store am) accountID)
        \<and> GetGroupByID (am_Store (snd (GroupAddPeer am accountID groupID peerID))) accountID groupID
          = Inr (g\<lparr>Group_Peers := Group_Peers g @ [peerID]\<rparr>))"
  unfolding GroupAddPeer_def GroupDeletePeer_def
  by (intro conjI impI; (elim conjE)?;
      (rule addPeer_noop(1) removePeer_noop(1) addPeer_twice addPeer_first);
      (assumption | rule AddPeer_present RemovePeer_absent)?; assumption?)

text \<open>
  On the example manager \<open>p1\<close> is a member of \<open>eng\<close> and \<open>p2\<close> is not: adding \<open>p1\<close> or
  removing \<open>p2\<close> changes nothing, adding \<open>p2\<close> twice appends it once and takes the serial
  from 7 to 8.
\<close>

theorem peer_membership_change_is_idempotent_witness:
  "snd (GroupAddPeer exampleManager ''acc1'' ''gEng'' ''p1'') = exampleManager
   \<and> snd (GroupDeletePeer exampleManager ''acc1'' ''gEng'' ''p2'') = exampleManager
   \<and> fst (GroupAddPeer exampleManager ''acc1'' ''gEng'' ''p2'') = None
   \<and> GroupAddPeer (snd (GroupAddPeer exampleManager ''acc1'' ''gEng'' ''p2'')) ''acc1'' ''gEng'' ''p2''
       = (None, snd (GroupAddPeer exampleManager ''acc1'' ''gEng'' ''p2''))
   \<and> accountSerial (am_Store exampleManager) ''acc1'' = Some 7
   \<and> accountSerial (am_Store (snd (GroupAddPeer exampleManager ''acc1'' ''gEng'' ''p2''))) ''acc1''
       = Some 8
   \<and> GetGroupByID (am_Store (snd (GroupAddPeer exampleManager ''acc1'' ''gEng'' ''p2'')))
       ''acc1'' ''gEng'' = Inr (groupEng\<lparr>Group_Peers := [''p1'', ''p2'']\<rparr>)"
proof -
  have f: "find (\<lambda>h. Group_ID h = ''gEng'' \<and> Group_AccountID h = ''acc1'')
             (groups (am_Store exampleManager)) = Some groupEng"
    by (simp add: example_defs)
  have g: "GetGroupByID (am_Store exampleManager) ''acc1'' ''gEng'' = Inr groupEng"
    by (simp add: example_defs store_reads)
  have p: "''p1'' \<in> set (Group_Peers groupEng)" "''p2'' \<notin> set (Group_Peers groupEng)"
    "Group_Peers groupEng @ [''p2''] = [''p1'', ''p2'']"
    by (simp_all add: groupEng_def)
  have s0: "accountSerial (am_Store exampleManager) ''acc1'' = Some 7"
    by (simp add: example_defs accountSerial_def)
  have ok: "fst (GroupAddPeer exampleManager ''acc1'' ''gEng'' ''p2'') = None"
    by (simp add: example_defs store_reads linkage_defs am_defs op_defs)
  note T = peer_membership_change_is_idempotent
             [where am = exampleManager and accountID = "''acc1''" and groupID = "''gEng''"
                and g = groupEng]
  from T[where peerID = "''p1''", THEN conjunct1] f p
  have a: "snd (GroupAddPeer exampleManager ''acc1'' ''gEng'' ''p1'') = exampleManager"
    by simp
  from T[where peerID = "''p2''", THEN conjunct1] f p
  have b: "snd (GroupDeletePeer exampleManager ''acc1'' ''gEng'' ''p2'') = exampleManager"
    by simp
  from T[where peerID = "''p2''", THEN conjunct2] ok g p s0
  have c: "GroupAddPeer (snd (GroupAddPeer exampleManager ''acc1'' ''gEng'' ''p2'')) ''acc1'' ''gEng'' ''p2''
       = (None, snd (GroupAddPeer exampleManager ''acc1'' ''gEng'' ''p2''))
     \<and> accountSerial (am_Store (snd (GroupAddPeer exampleManager ''acc1'' ''gEng'' ''p2''))) ''acc1''
       = Some 8
     \<and> GetGroupByID (am_Store (snd (GroupAddPeer exampleManager ''acc1'' ''gEng'' ''p2'')))
       ''acc1'' ''gEng'' = Inr (groupEng\<lparr>Group_Peers := [''p1'', ''p2'']\<rparr>)"
    by simp
  from a b c ok s0 show ?thesis by simp
qed

end
